theory Spec2Isabelle
  imports Main
begin

section \<open>Strings and numbers of the host language\<close>

text \<open>
  The program is TypeScript. Its strings are modelled as \<^typ>\<open>string\<close> and the model covers
  ASCII text (Codeforces ids, verdict names and rating inputs are ASCII): case conversion
  leaves every character outside \<open>A-Z\<close> / \<open>a-z\<close> as it is. Its numbers are modelled as
  \<^typ>\<open>int\<close> (the values handled are integers far below $2^{53}$); where \<open>NaN\<close> can arise
  the type is \<^typ>\<open>int option\<close> with \<open>None\<close> for \<open>NaN\<close>. An optional field (\<open>f?: T\<close>) is an
  \<open>option\<close>, \<open>None\<close> standing for \<open>undefined\<close> (the key is absent); in a truthiness test
  \<open>null\<close> behaves as \<open>undefined\<close> does.
\<close>

definition digit_char :: "nat \<Rightarrow> char" where
  "digit_char d = ''0123456789'' ! d"

text \<open>Decimal rendering of a number inside a template string or \<open>join\<close>.\<close>

function string_of_nat :: "nat \<Rightarrow> string" where
  "string_of_nat n =
     (if n < 10 then [digit_char n] else string_of_nat (n div 10) @ [digit_char (n mod 10)])"
  by pat_completeness auto
termination
  by (relation "measure (\<lambda>n. n)") auto

declare string_of_nat.simps [simp del]

definition string_of_int :: "int \<Rightarrow> string" where
  "string_of_int i =
     (if i < 0 then CHR ''-'' # string_of_nat (nat (- i)) else string_of_nat (nat i))"

text \<open>\<open>String.prototype.toLowerCase\<close> and \<open>toUpperCase\<close>, on ASCII letters.\<close>

definition toLowerCase_char :: "char \<Rightarrow> char" where
  "toLowerCase_char c =
     (case map_of (zip ''ABCDEFGHIJKLMNOPQRSTUVWXYZ'' ''abcdefghijklmnopqrstuvwxyz'') c of
        None \<Rightarrow> c | Some l \<Rightarrow> l)"

definition toUpperCase_char :: "char \<Rightarrow> char" where
  "toUpperCase_char c =
     (case map_of (zip ''abcdefghijklmnopqrstuvwxyz'' ''ABCDEFGHIJKLMNOPQRSTUVWXYZ'') c of
        None \<Rightarrow> c | Some u \<Rightarrow> u)"

definition toLowerCase :: "string \<Rightarrow> string" where
  "toLowerCase s = map toLowerCase_char s"

definition toUpperCase :: "string \<Rightarrow> string" where
  "toUpperCase s = map toUpperCase_char s"

text \<open>\<open>s.startsWith(t)\<close> and \<open>s.includes(t)\<close> (substring search).\<close>

definition startsWith :: "string \<Rightarrow> string \<Rightarrow> bool" where
  "startsWith s t = (take (length t) s = t)"

fun includes_str :: "string \<Rightarrow> string \<Rightarrow> bool" where
  "includes_str [] t = (t = [])"
| "includes_str (c # cs) t = (startsWith (c # cs) t \<or> includes_str cs t)"

text \<open>\<open>xs.join(sep)\<close> on a list of strings.\<close>

fun join :: "string \<Rightarrow> string list \<Rightarrow> string" where
  "join sep [] = []"
| "join sep [x] = x"
| "join sep (x # y # ys) = x @ sep @ join sep (y # ys)"

text \<open>
  \<open>parseInt(str)\<close> with no radix: leading white space is skipped, one sign is read, a
  \<open>0x\<close>/\<open>0X\<close> prefix selects radix 16, then the longest run of digits is read; no digit at
  all gives \<open>NaN\<close>.
\<close>

definition isWhiteSpace :: "char \<Rightarrow> bool" where
  "isWhiteSpace c = (c \<in> set [CHR 0x09, CHR 0x0A, CHR 0x0B, CHR 0x0C, CHR 0x0D, CHR 0x20])"

definition digit_value :: "char \<Rightarrow> nat option" where
  "digit_value c = map_of (zip ''0123456789'' [0, 1, 2, 3, 4, 5, 6, 7, 8, 9]) c"

definition hex_value :: "char \<Rightarrow> nat option" where
  "hex_value c =
     map_of (zip ''0123456789abcdefABCDEF''
               [0, 1, 2, 3, 4, 5, 6, 7, 8, 9, 10, 11, 12, 13, 14, 15, 10, 11, 12, 13, 14, 15]) c"

definition digits_value :: "nat \<Rightarrow> (char \<Rightarrow> nat option) \<Rightarrow> string \<Rightarrow> nat" where
  "digits_value R dv z =
     foldl (\<lambda>acc c. case dv c of None \<Rightarrow> acc | Some d \<Rightarrow> acc * R + d) 0 z"

definition parseInt :: "string \<Rightarrow> int option" where
  "parseInt str =
     (let s = dropWhile isWhiteSpace str;
          neg = (case s of [] \<Rightarrow> False | c # _ \<Rightarrow> c = CHR ''-'');
          s1 = (case s of [] \<Rightarrow> [] | c # cs \<Rightarrow> if c = CHR ''+'' \<or> c = CHR ''-'' then cs else s);
          hex = (startsWith s1 ''0x'' \<or> startsWith s1 ''0X'');
          s2 = (if hex then drop 2 s1 else s1);
          R = (if hex then 16 else 10);
          dv = (if hex then hex_value else digit_value);
          z = takeWhile (\<lambda>c. dv c \<noteq> None) s2
      in if z = [] then None
         else Some ((if neg then - 1 else 1) * int (digits_value R dv z)))"

text \<open>
  \<open>Array.prototype.sort(cmp)\<close> is stable: an element moves in front of another only when the
  comparison puts it strictly first. For a comparison that is a total preorder every stable
  sort returns the same list; it is computed here by insertion.
\<close>

fun insert_by :: "('a \<Rightarrow> 'a \<Rightarrow> int) \<Rightarrow> 'a \<Rightarrow> 'a list \<Rightarrow> 'a list" where
  "insert_by cmp x [] = [x]"
| "insert_by cmp x (y # ys) = (if cmp x y \<le> 0 then x # y # ys else y # insert_by cmp x ys)"

definition array_sort :: "('a \<Rightarrow> 'a \<Rightarrow> int) \<Rightarrow> 'a list \<Rightarrow> 'a list" where
  "array_sort cmp xs = foldr (insert_by cmp) xs []"

section \<open>The submission store (db.ts)\<close>

text \<open>
  The value type of the \<open>submissions\<close> object store, as the \<open>CFHelperDB\<close> schema declares it.
\<close>

record submission =
  sub_id :: int
  sub_contestId :: int
  sub_index :: string
  sub_name :: string
  sub_rating :: "int option"
  sub_tags :: "string list"
  sub_programmingLanguage :: string
  sub_verdict :: string
  sub_testset :: string
  sub_passedTestCount :: int
  sub_timeConsumedMillis :: int
  sub_memoryConsumedBytes :: int
  sub_creationTimeSeconds :: int
  sub_code :: "string option"

text \<open>
  An element of the batch handed to \<open>saveSubmissions\<close> (typed \<open>any\<close> in the source): the wire
  shape of the remote submission list. The fields the code guards are optional: \<open>id\<close> and
  \<open>problem\<close> (tested for truthiness), \<open>problem.tags\<close> (\<open>|| []\<close>), \<open>problem.rating\<close>. The field
  \<open>in_code\<close> is a \<open>code\<close> property an incoming record may carry; \<open>saveSubmissions\<close> never reads it.
\<close>

record sub_problem =
  sp_contestId :: int
  sp_index :: string
  sp_name :: string
  sp_rating :: "int option"
  sp_tags :: "string list option"

record raw_submission =
  in_id :: "int option"
  in_problem :: "sub_problem option"
  in_programmingLanguage :: string
  in_verdict :: string
  in_testset :: string
  in_passedTestCount :: int
  in_timeConsumedMillis :: int
  in_memoryConsumedBytes :: int
  in_creationTimeSeconds :: int
  in_code :: "string option"

text \<open>
  The object store has key path \<open>id\<close>: it holds at most one record per key, \<open>get\<close> is a
  lookup and \<open>put\<close> inserts or replaces. It is a finite map from keys to records.
\<close>

type_synonym store = "int \<rightharpoonup> submission"

text \<open>\<open>existing?.code\<close>: the \<open>code\<close> of the record found, \<open>undefined\<close> when none was found.\<close>

definition existing_code :: "submission option \<Rightarrow> string option" where
  "existing_code existing = (case existing of None \<Rightarrow> None | Some e \<Rightarrow> sub_code e)"

text \<open>The object literal passed to \<open>store.put\<close>.\<close>

definition put_value :: "int \<Rightarrow> sub_problem \<Rightarrow> raw_submission \<Rightarrow> submission option \<Rightarrow> submission" where
  "put_value i p sub existing =
     \<lparr> sub_id = i,
       sub_contestId = sp_contestId p,
       sub_index = sp_index p,
       sub_name = sp_name p,
       sub_rating = sp_rating p,
       sub_tags = (case sp_tags p of None \<Rightarrow> [] | Some ts \<Rightarrow> ts),
       sub_programmingLanguage = in_programmingLanguage sub,
       sub_verdict = in_verdict sub,
       sub_testset = in_testset sub,
       sub_passedTestCount = in_passedTestCount sub,
       sub_timeConsumedMillis = in_timeConsumedMillis sub,
       sub_memoryConsumedBytes = in_memoryConsumedBytes sub,
       sub_creationTimeSeconds = in_creationTimeSeconds sub,
       sub_code = existing_code existing \<rparr>"

text \<open>
  The body of the loop of \<open>saveSubmissions\<close>: \<open>if (sub.id && sub.problem)\<close> lets a record
  through when its id is a number other than 0 and its problem reference is present.
\<close>

definition save_one :: "store \<Rightarrow> raw_submission \<Rightarrow> store" where
  "save_one st sub =
     (case in_id sub of
        None \<Rightarrow> st
      | Some i \<Rightarrow>
          if i = 0 then st
          else (case in_problem sub of
                  None \<Rightarrow> st
                | Some p \<Rightarrow> st(i \<mapsto> put_value i p sub (st i))))"

fun saveSubmissions :: "store \<Rightarrow> raw_submission list \<Rightarrow> store" where
  "saveSubmissions st [] = st"
| "saveSubmissions st (sub # subs) = saveSubmissions (save_one st sub) subs"

definition getSubmissionCount :: "store \<Rightarrow> nat" where
  "getSubmissionCount st = card (dom st)"

definition clearDB :: "store \<Rightarrow> store" where
  "clearDB st = Map.empty"

section \<open>Problems, folders and the search (the overlay component)\<close>

record problem =
  p_id :: string
  p_name :: string
  p_tags :: "string list option"
  p_rating :: "int option"
  p_contestId :: "int option"
  p_index :: "string option"

record folder =
  f_id :: string
  f_title :: string
  f_problems :: "problem list"
  f_isCustom :: "bool option"

text \<open>
  The rating inputs are strings; \<open>minRating ? parseInt(minRating) : 0\<close> and
  \<open>maxRating ? parseInt(maxRating) : 10000\<close>.
\<close>

definition resolveMin :: "string \<Rightarrow> int option" where
  "resolveMin minRating = (if minRating \<noteq> [] then parseInt minRating else Some 0)"

definition resolveMax :: "string \<Rightarrow> int option" where
  "resolveMax maxRating = (if maxRating \<noteq> [] then parseInt maxRating else Some 10000)"

text \<open>\<open>r >= m\<close> and \<open>r <= m\<close> where \<open>m\<close> may be \<open>NaN\<close> (every comparison with \<open>NaN\<close> is false).\<close>

definition num_ge :: "int \<Rightarrow> int option \<Rightarrow> bool" where
  "num_ge r m = (case m of None \<Rightarrow> False | Some v \<Rightarrow> v \<le> r)"

definition num_le :: "int \<Rightarrow> int option \<Rightarrow> bool" where
  "num_le r m = (case m of None \<Rightarrow> False | Some v \<Rightarrow> r \<le> v)"

text \<open>
  The two conjuncts of \<open>isMatch\<close>. The same two expressions are written out again, letter
  for letter, in the filter of \<open>handleRandomPick\<close>. \<open>searchText\<close>, \<open>lower\<close>, \<open>min\<close> and \<open>max\<close>
  are the variables the closures capture (\<open>mn\<close> and \<open>mx\<close> below). \<open>p.rating ? \<dots> : \<dots>\<close> tests the rating for
  truthiness: \<open>undefined\<close> and 0 take the second branch.
\<close>

definition textMatch :: "string \<Rightarrow> string \<Rightarrow> problem \<Rightarrow> bool" where
  "textMatch searchText lower p =
     (searchText = [] \<or>
      (includes_str (toLowerCase (p_id p)) lower \<or>
       includes_str (toLowerCase (p_name p)) lower \<or>
       (case p_tags p of
          None \<Rightarrow> False
        | Some ts \<Rightarrow> list_ex (\<lambda>t. includes_str (toLowerCase t) lower) ts)))"

definition ratingMatch :: "int option \<Rightarrow> int option \<Rightarrow> problem \<Rightarrow> bool" where
  "ratingMatch mn mx p =
     (case p_rating p of
        None \<Rightarrow> mn = Some 0
      | Some r \<Rightarrow> if r \<noteq> 0 then num_ge r mn \<and> num_le r mx else mn = Some 0)"

definition isMatch :: "string \<Rightarrow> string \<Rightarrow> int option \<Rightarrow> int option \<Rightarrow> problem \<Rightarrow> bool" where
  "isMatch searchText lower mn mx p =
     (textMatch searchText lower p \<and> ratingMatch mn mx p)"

definition getScore :: "string \<Rightarrow> string \<Rightarrow> problem \<Rightarrow> int" where
  "getScore searchText lower p =
     (let pid = toLowerCase (p_id p) in
      if searchText \<noteq> [] \<and> pid = lower then 0
      else if searchText \<noteq> [] \<and> startsWith pid lower then 1
      else if searchText \<noteq> [] \<and> startsWith (toLowerCase (p_name p)) lower then 2
      else 3)"

text \<open>
  The comparison of \<open>sortProblems\<close>. \<open>localeCompare\<close> depends on the collation of the host's
  locale; it is the parameter \<open>lc\<close>.
\<close>

definition compareProblems ::
  "(string \<Rightarrow> string \<Rightarrow> int) \<Rightarrow> string \<Rightarrow> string \<Rightarrow> problem \<Rightarrow> problem \<Rightarrow> int" where
  "compareProblems lc searchText lower a b =
     (let sA = getScore searchText lower a; sB = getScore searchText lower b in
      if sA \<noteq> sB then sA - sB
      else if length (p_id a) \<noteq> length (p_id b)
        then int (length (p_id a)) - int (length (p_id b))
      else lc (p_id a) (p_id b))"

definition sortProblems ::
  "(string \<Rightarrow> string \<Rightarrow> int) \<Rightarrow> string \<Rightarrow> string \<Rightarrow> problem list \<Rightarrow> problem list" where
  "sortProblems lc searchText lower list = array_sort (compareProblems lc searchText lower) list"

text \<open>The nested \<open>forEach\<close> that fills \<open>myMatches\<close>: one step per problem of each folder.\<close>

definition pushMatch ::
  "string \<Rightarrow> string \<Rightarrow> int option \<Rightarrow> int option \<Rightarrow> problem list \<Rightarrow> problem \<Rightarrow> problem list" where
  "pushMatch searchText lower mn mx myMatches p =
     (if isMatch searchText lower mn mx p \<and> \<not> list_ex (\<lambda>x. p_id x = p_id p) myMatches
      then myMatches @ [p] else myMatches)"

record search_result =
  res_my :: "problem list"
  res_global :: "problem list"

definition searchResults ::
  "(string \<Rightarrow> string \<Rightarrow> int) \<Rightarrow> string \<Rightarrow> string \<Rightarrow> string \<Rightarrow> folder list \<Rightarrow> problem list
     \<Rightarrow> search_result" where
  "searchResults lc searchText minRating maxRating myFolders allProblemsCache =
     (if searchText = [] \<and> minRating = [] \<and> maxRating = []
      then \<lparr> res_my = [], res_global = [] \<rparr>
      else
        let lower = toLowerCase searchText;
            mn = resolveMin minRating;
            mx = resolveMax maxRating;
            myMatches = foldl (pushMatch searchText lower mn mx) []
                          (concat (map f_problems myFolders));
            globalMatches = filter (isMatch searchText lower mn mx) allProblemsCache
        in \<lparr> res_my = sortProblems lc searchText lower myMatches,
             res_global = take 50 (sortProblems lc searchText lower globalMatches) \<rparr>)"

text \<open>
  \<open>handleRandomPick\<close>: the pool the random problem is drawn from. \<open>userStatus\<close> maps a
  problem id to \<open>"OK"\<close> or \<open>"WRONG"\<close>. The draw itself (\<open>Math.random\<close>) and the navigation
  are not modelled: the outcome is an alert or the pool drawn from.
\<close>

datatype status = OK | WRONG

definition poolMatch ::
  "bool \<Rightarrow> (string \<rightharpoonup> status) \<Rightarrow> string \<Rightarrow> string \<Rightarrow> int option \<Rightarrow> int option
     \<Rightarrow> problem \<Rightarrow> bool" where
  "poolMatch showStatus userStatus searchText lower mn mx p =
     (let textMatch' = textMatch searchText lower p;
          ratingMatch' = ratingMatch mn mx p;
          notSolved = (\<not> showStatus \<or> userStatus (p_id p) \<noteq> Some OK)
      in textMatch' \<and> ratingMatch' \<and> notSolved)"

datatype pick = IndexEmpty | NoUnsolved | DrawFrom "problem list"

definition handleRandomPick ::
  "bool \<Rightarrow> (string \<rightharpoonup> status) \<Rightarrow> string \<Rightarrow> string \<Rightarrow> string \<Rightarrow> problem list \<Rightarrow> pick" where
  "handleRandomPick showStatus userStatus searchText minRating maxRating allProblemsCache =
     (if allProblemsCache = [] then IndexEmpty
      else
        let lower = toLowerCase searchText;
            mn = resolveMin minRating;
            mx = resolveMax maxRating;
            pool = filter (poolMatch showStatus userStatus searchText lower mn mx)
                     allProblemsCache
        in if pool = [] then NoUnsolved else DrawFrom pool)"

section \<open>The export\<close>

text \<open>
  \<open>verdict.replace(/_/g, ' ').toLowerCase().replace(/\b\w/g, c => c.toUpperCase())\<close>: a word
  character is one of \<open>A-Z a-z 0-9 _\<close>, and \<open>\b\w\<close> matches a word character that starts the
  string or follows a character that is not one. \<open>titleCase prev\<close> walks the string,
  \<open>prev\<close> telling whether the character before was a word character.
\<close>

definition isWordChar :: "char \<Rightarrow> bool" where
  "isWordChar c =
     (c \<in> set ''ABCDEFGHIJKLMNOPQRSTUVWXYZabcdefghijklmnopqrstuvwxyz0123456789_'')"

fun titleCase :: "bool \<Rightarrow> string \<Rightarrow> string" where
  "titleCase prev [] = []"
| "titleCase prev (c # cs) =
     (if isWordChar c \<and> \<not> prev then toUpperCase_char c else c) # titleCase (isWordChar c) cs"

definition humanize :: "string \<Rightarrow> string" where
  "humanize verdict =
     titleCase False (toLowerCase (map (\<lambda>c. if c = CHR ''_'' then CHR '' '' else c) verdict))"

definition suffixed_texts :: "string list" where
  "suffixed_texts =
     [''Wrong Answer'', ''Time Limit Exceeded'', ''Memory Limit Exceeded'', ''Runtime Error'']"

definition formatVerdictDetailed :: "string \<Rightarrow> int \<Rightarrow> string" where
  "formatVerdictDetailed verdict passedCount =
     (if verdict = [] then []
      else if verdict = ''OK'' then ''Accepted''
      else if verdict = ''COMPILATION_ERROR'' then ''Compilation Error''
      else
        let text = humanize verdict in
        if text \<in> set suffixed_texts
          then text @ '' on test '' @ string_of_int (passedCount + 1)
        else text)"

text \<open>\<open>Math.max(0, Math.round(bytes / 1024))\<close>; \<open>Math.round\<close> rounds a half upwards.\<close>

definition formatMemoryKB :: "int \<Rightarrow> int" where
  "formatMemoryKB bytes = max 0 ((bytes + 512) div 1024)"

definition dq :: char where
  "dq = CHR 0x22"

text \<open>\<open>s.replace(/"/g, '""')\<close> and the template \<open>`"${s}"`\<close>.\<close>

definition double_quotes :: "string \<Rightarrow> string" where
  "double_quotes s = concat (map (\<lambda>c. if c = dq then [dq, dq] else [c]) s)"

definition in_quotes :: "string \<Rightarrow> string" where
  "in_quotes s = [dq] @ s @ [dq]"

definition headers :: "string list" where
  "headers =
     [''Submission ID'', ''Contest'', ''Index'', ''Problem Name'', ''Rating'', ''Verdict'',
      ''Language'', ''Time (ms)'', ''Memory (KB)'', ''Date Time'']"

text \<open>
  One pass of the loop of \<open>handleExportHistory\<close>: the cells of a row, then the row.
  \<open>formatFullDate\<close> renders the creation time in the host's local time zone; it is the
  parameter \<open>formatFullDate\<close>. \<open>row.rating || ""\<close> is empty for a missing rating and for 0.
\<close>

definition row_values :: "(int \<Rightarrow> string) \<Rightarrow> submission \<Rightarrow> string list" where
  "row_values formatFullDate row =
     (let dateTime = formatFullDate (sub_creationTimeSeconds row);
          verdict = formatVerdictDetailed (sub_verdict row) (sub_passedTestCount row);
          memoryKB = formatMemoryKB (sub_memoryConsumedBytes row)
      in [string_of_int (sub_id row), string_of_int (sub_contestId row), sub_index row,
          in_quotes (double_quotes (sub_name row)),
          (case sub_rating row of
             None \<Rightarrow> []
           | Some r \<Rightarrow> if r = 0 then [] else string_of_int r),
          in_quotes verdict, in_quotes (sub_programmingLanguage row),
          string_of_int (sub_timeConsumedMillis row), string_of_int memoryKB,
          in_quotes dateTime])"

definition csv_row :: "(int \<Rightarrow> string) \<Rightarrow> submission \<Rightarrow> string" where
  "csv_row formatFullDate row = join '','' (row_values formatFullDate row)"

text \<open>The byte-order mark \<open>U+FEFF\<close>, as the three bytes of its UTF-8 encoding.\<close>

definition bom :: string where
  "bom = [CHR 0xEF, CHR 0xBB, CHR 0xBF]"

definition csvContent :: "(int \<Rightarrow> string) \<Rightarrow> submission list \<Rightarrow> string" where
  "csvContent formatFullDate data =
     bom @ join [CHR 0x0A] (join '','' headers # map (csv_row formatFullDate) data)"

text \<open>
  \<open>querySubmissions\<close> filters the records read from the creation-time index (\<open>all\<close>);
  \<open>handleExportHistory\<close> reverses them and builds the file handed to \<open>downloadFile\<close>. The
  JSON branch hands over the records themselves (\<open>JSON.stringify\<close> is not modelled).
\<close>

definition querySubmissions :: "bool \<Rightarrow> submission list \<Rightarrow> submission list" where
  "querySubmissions onlyAC all =
     (if \<not> onlyAC then all
      else filter (\<lambda>sub. if onlyAC \<and> sub_verdict sub \<noteq> ''OK'' then False else True) all)"

datatype export_outcome = NoData | JsonFile "submission list" | CsvFile string

definition handleExportHistory ::
  "(int \<Rightarrow> string) \<Rightarrow> nat \<Rightarrow> string \<Rightarrow> bool \<Rightarrow> submission list \<Rightarrow> export_outcome" where
  "handleExportHistory formatFullDate dbCount exportFormat exportOnlyAC all =
     (if dbCount = 0 then NoData
      else
        let data = rev (querySubmissions exportOnlyAC all) in
        if exportFormat = ''json'' then JsonFile data
        else CsvFile (csvContent formatFullDate data))"

section \<open>The catalog refresh\<close>

text \<open>An entry of \<open>data.result.problems\<close> (typed \<open>any\<close> in the source).\<close>

record api_problem =
  ap_contestId :: "int option"
  ap_index :: string
  ap_name :: string
  ap_tags :: "string list option"
  ap_rating :: "int option"

text \<open>
  A number inside a template string: a number renders in decimal and an absent contest id
  (\<open>undefined\<close>) as the word \<open>undefined\<close>. The wire shape has a number or no key; a \<open>null\<close>
  (which would render as \<open>null\<close>) is outside it.
\<close>

definition template_num :: "int option \<Rightarrow> string" where
  "template_num n = (case n of None \<Rightarrow> ''undefined'' | Some i \<Rightarrow> string_of_int i)"

definition ingest :: "api_problem \<Rightarrow> problem" where
  "ingest p =
     \<lparr> p_id = template_num (ap_contestId p) @ ap_index p,
       p_name = ap_name p,
       p_tags = Some (case ap_tags p of None \<Rightarrow> [] | Some ts \<Rightarrow> ts),
       p_rating = ap_rating p,
       p_contestId = ap_contestId p,
       p_index = None \<rparr>"

definition CF_TAGS :: "string list" where
  "CF_TAGS =
     [''dp'', ''greedy'', ''math'', ''graphs'', ''data structures'', ''sortings'',
      ''binary search'', ''dfs and similar'', ''trees'', ''strings'', ''number theory'',
      ''geometry'', ''two pointers'', ''dsu'', ''bitmasks'', ''constructive algorithms'',
      ''implementation'']"

text \<open>
  \<open>(a, b) => b.contestId - a.contestId\<close>; with a missing contest id the difference is \<open>NaN\<close>,
  which \<open>sort\<close> reads as 0. The comparison is then no consistent order and the order the
  host's \<open>sort\<close> leaves is its own choice; the insertion order computed here is exact when
  every problem of the folder has a contest id. No property below speaks of the content
  of a folder after a successful refresh.
\<close>

definition byContestDesc :: "problem \<Rightarrow> problem \<Rightarrow> int" where
  "byContestDesc a b =
     (case (p_contestId b, p_contestId a) of
        (Some cb, Some ca) \<Rightarrow> cb - ca
      | _ \<Rightarrow> 0)"

definition sysFolder :: "problem list \<Rightarrow> string \<Rightarrow> folder" where
  "sysFolder rawProblems tag =
     (let pList = take 20 (array_sort byContestDesc
                    (filter (\<lambda>p. case p_tags p of None \<Rightarrow> False | Some ts \<Rightarrow> tag \<in> set ts)
                       rawProblems))
      in \<lparr> f_id = ''sys_'' @ tag, f_title = toUpperCase tag, f_problems = pList,
           f_isCustom = None \<rparr>)"

text \<open>
  What \<open>fetch\<close> followed by \<open>res.json()\<close> gives: an exception (no connection, or a body that
  is not JSON), or the parsed reply with its \<open>status\<close> and, when present,
  \<open>result.problems\<close>.
\<close>

record api_reply =
  reply_status :: string
  reply_problems :: "api_problem list option"

datatype fetch_outcome = Throws | Reply api_reply

text \<open>
  The component state \<open>fetchCFProblems\<close> touches, with the three keys it writes to
  \<open>chrome.storage.local\<close>. \<open>requests\<close> counts the calls of \<open>fetch\<close>.
\<close>

record app_state =
  allProblemsCache :: "problem list"
  systemFolders :: "folder list"
  isLoading :: bool
  cf_all_problems_cache :: "problem list option"
  cf_cache_time :: "int option"
  cf_sys_folders :: "folder list option"
  requests :: nat

text \<open>
  The \<open>try\<close> block: the state it leaves. An exception (also the \<open>TypeError\<close> of reading
  \<open>problems\<close> of a missing \<open>result\<close>) goes to \<open>catch\<close>, which only logs; a status other than
  \<open>"OK"\<close> skips the block's body. \<open>now\<close> is \<open>Date.now()\<close>.
\<close>

definition refresh_body :: "int \<Rightarrow> fetch_outcome \<Rightarrow> app_state \<Rightarrow> app_state" where
  "refresh_body now outcome s =
     (case outcome of
        Throws \<Rightarrow> s
      | Reply data \<Rightarrow>
          if reply_status data = ''OK'' then
            (case reply_problems data of
               None \<Rightarrow> s
             | Some problems \<Rightarrow>
                 let rawProblems = map ingest problems;
                     newSys = map (sysFolder rawProblems) CF_TAGS
                 in s \<lparr> allProblemsCache := rawProblems,
                        cf_all_problems_cache := Some rawProblems,
                        cf_cache_time := Some now,
                        systemFolders := newSys,
                        cf_sys_folders := Some newSys \<rparr>)
          else s)"

definition fetchCFProblems :: "int \<Rightarrow> fetch_outcome \<Rightarrow> app_state \<Rightarrow> app_state" where
  "fetchCFProblems now outcome s =
     (let s1 = s \<lparr> isLoading := True \<rparr>;
          s2 = refresh_body now outcome (s1 \<lparr> requests := requests s1 + 1 \<rparr>)
      in s2 \<lparr> isLoading := False \<rparr>)"

section \<open>Auxiliary notions for the proofs\<close>

text \<open>\<open>accepts sub k\<close>: the guard of the loop lets \<open>sub\<close> through and its key is \<open>k\<close>.\<close>

definition accepts :: "raw_submission \<Rightarrow> int \<Rightarrow> bool" where
  "accepts sub k = (in_id sub = Some k \<and> k \<noteq> 0 \<and> in_problem sub \<noteq> None)"

text \<open>
  Whether a string starts with a decimal digit (a Codeforces problem index starts with a
  letter).
\<close>

definition starts_with_digit :: "string \<Rightarrow> bool" where
  "starts_with_digit s = (case s of [] \<Rightarrow> False | c # cs \<Rightarrow> c \<in> set ''0123456789'')"

text \<open>
  The order \<open>sortProblems\<close> establishes whatever the collation: by score, then by length of
  the id.
\<close>

definition key_le :: "string \<Rightarrow> string \<Rightarrow> problem \<Rightarrow> problem \<Rightarrow> bool" where
  "key_le searchText lower a b =
     (getScore searchText lower a < getScore searchText lower b \<or>
      (getScore searchText lower a = getScore searchText lower b \<and>
       length (p_id a) \<le> length (p_id b)))"

text \<open>
  The verdicts of the remote service are enumerators written in capital letters and
  underscores (\<open>OK\<close>, \<open>WRONG_ANSWER\<close>, \<open>IDLENESS_LIMIT_EXCEEDED\<close>, ...); the store types the
  field as a string. \<open>enumerator_like\<close> says that a string is written that way, and
  \<open>unhumanize\<close> reads such a verdict back from its humanized form.
\<close>

definition enumerator_like :: "string \<Rightarrow> bool" where
  "enumerator_like v = list_all (\<lambda>c. c \<in> set ''ABCDEFGHIJKLMNOPQRSTUVWXYZ_'') v"

definition unhumanize_char :: "char \<Rightarrow> char" where
  "unhumanize_char c = (if c = CHR '' '' then CHR ''_'' else toUpperCase_char c)"

definition unhumanize :: "string \<Rightarrow> string" where
  "unhumanize t = map unhumanize_char t"

section \<open>Example data\<close>

text \<open>
  Concrete values on which the theorems below are run: an incoming submission and a stored
  one, a store that holds a record with a \<open>code\<close>, and a stored submission whose language and
  problem name contain double quotes, with a date rendering for it.
\<close>

definition ex_problem :: sub_problem where
  "ex_problem =
     \<lparr> sp_contestId = 4, sp_index = ''A'', sp_name = ''Watermelon'', sp_rating = Some 800,
       sp_tags = Some [''brute force'', ''math''] \<rparr>"

definition ex_incoming :: "int option \<Rightarrow> sub_problem option \<Rightarrow> string option \<Rightarrow> raw_submission" where
  "ex_incoming i p c =
     \<lparr> in_id = i, in_problem = p, in_programmingLanguage = ''GNU C++17'',
       in_verdict = ''WRONG_ANSWER'', in_testset = ''TESTS'', in_passedTestCount = 2,
       in_timeConsumedMillis = 30, in_memoryConsumedBytes = 1536,
       in_creationTimeSeconds = 1700000000, in_code = c \<rparr>"

definition ex_stored :: "int \<Rightarrow> string option \<Rightarrow> submission" where
  "ex_stored i c =
     \<lparr> sub_id = i, sub_contestId = 4, sub_index = ''A'', sub_name = ''Watermelon'',
       sub_rating = Some 800, sub_tags = [''brute force'', ''math''],
       sub_programmingLanguage = ''GNU C++17'', sub_verdict = ''TESTING'',
       sub_testset = ''TESTS'', sub_passedTestCount = 0, sub_timeConsumedMillis = 0,
       sub_memoryConsumedBytes = 0, sub_creationTimeSeconds = 1700000000, sub_code = c \<rparr>"

definition ex_store :: store where
  "ex_store = Map.empty(7 \<mapsto> ex_stored 7 (Some ''int main() {}''))"

definition ex_quoted :: submission where
  "ex_quoted =
     (ex_stored 7 None)
       \<lparr> sub_name := ''He said '' @ [dq] @ ''hi'' @ [dq],
         sub_programmingLanguage := ''C '' @ [dq] @ ''11'' @ [dq],
         sub_verdict := ''WRONG_ANSWER'', sub_passedTestCount := 2,
         sub_memoryConsumedBytes := 1536 \<rparr>"

definition ex_date :: "int \<Rightarrow> string" where
  "ex_date t = ''2023-11-14 22:13:20''"

text \<open>
  A catalog problem, a catalog (the three problems of the \<open>4a\<close> example and one whose name
  starts with the query), and a collation for the examples: the order of character codes.
\<close>

definition ex_prob :: "string \<Rightarrow> string \<Rightarrow> int option \<Rightarrow> problem" where
  "ex_prob i n r =
     \<lparr> p_id = i, p_name = n, p_tags = Some [''math''], p_rating = r, p_contestId = None,
       p_index = None \<rparr>"

definition ex_catalog :: "problem list" where
  "ex_catalog =
     [ex_prob ''4A'' ''Watermelon'' (Some 1200), ex_prob ''1504A'' ''Deja Vu'' (Some 800),
      ex_prob ''44A'' ''Indian Summer'' (Some 900), ex_prob ''100B'' ''4A sequel'' None]"

fun compare_codes :: "string \<Rightarrow> string \<Rightarrow> int" where
  "compare_codes [] [] = 0"
| "compare_codes [] (y # ys) = - 1"
| "compare_codes (x # xs) [] = 1"
| "compare_codes (x # xs) (y # ys) =
     (if (of_char x :: nat) < of_char y then - 1
      else if (of_char y :: nat) < of_char x then 1
      else compare_codes xs ys)"

text \<open>
  A component state that holds a snapshot, a remote catalog entry and a reply with status
  \<open>"OK"\<close>.
\<close>

definition ex_folder :: folder where
  "ex_folder =
     \<lparr> f_id = ''sys_math'', f_title = ''MATH'',
       f_problems = [ex_prob ''4A'' ''Watermelon'' (Some 800)], f_isCustom = None \<rparr>"

definition ex_state :: app_state where
  "ex_state =
     \<lparr> allProblemsCache = [ex_prob ''4A'' ''Watermelon'' (Some 800)],
       systemFolders = [ex_folder],
       isLoading = False,
       cf_all_problems_cache = Some [ex_prob ''4A'' ''Watermelon'' (Some 800)],
       cf_cache_time = Some 1700000000000,
       cf_sys_folders = Some [ex_folder],
       requests = 0 \<rparr>"

definition ex_entry :: "int option \<Rightarrow> string \<Rightarrow> api_problem" where
  "ex_entry c i =
     \<lparr> ap_contestId = c, ap_index = i, ap_name = ''Watermelon'', ap_tags = Some [''math''],
       ap_rating = Some 800 \<rparr>"

definition ex_reply :: "api_problem list \<Rightarrow> fetch_outcome" where
  "ex_reply ps = Reply \<lparr> reply_status = ''OK'', reply_problems = Some ps \<rparr>"

section \<open>Properties of the submission store\<close>

lemma save_one_other: "\<not> accepts sub k \<Longrightarrow> save_one st sub k = st k"
  by (auto simp: save_one_def accepts_def split: option.splits)

lemma save_one_code: "existing_code (save_one st sub k) = existing_code (st k)"
  by (auto simp: save_one_def put_value_def existing_code_def split: option.splits)

lemma save_one_cong:
  "accepts sub k \<Longrightarrow> existing_code (st k) = existing_code (st' k) \<Longrightarrow>
   save_one st sub k = save_one st' sub k"
  by (auto simp: save_one_def accepts_def put_value_def split: option.splits)

lemma save_one_dom: "st k = Some e \<Longrightarrow> \<exists>e'. save_one st sub k = Some e'"
  by (auto simp: save_one_def split: option.splits)

lemma saveSubmissions_code: "existing_code (saveSubmissions st b k) = existing_code (st k)"
  by (induction b arbitrary: st) (simp_all add: save_one_code)

lemma saveSubmissions_dom: "st k = Some e \<Longrightarrow> \<exists>e'. saveSubmissions st b k = Some e'"
proof (induction b arbitrary: st e)
  case Nil
  then show ?case by simp
next
  case (Cons sub subs)
  obtain e1 where "save_one st sub k = Some e1"
    using save_one_dom [of st k e sub] Cons.prems by blast
  then show ?case
    using Cons.IH [of "save_one st sub" e1] by simp
qed

lemma saveSubmissions_untouched:
  "\<forall>sub \<in> set b. \<not> accepts sub k \<Longrightarrow> saveSubmissions st b k = st k"
  by (induction b arbitrary: st) (simp_all add: save_one_other)

text \<open>
  Where the batch writes key \<open>k\<close>, the record it leaves there depends on the starting store
  only through the \<open>code\<close> found under \<open>k\<close>.
\<close>

lemma saveSubmissions_cong:
  "\<exists>sub \<in> set b. accepts sub k \<Longrightarrow> existing_code (st k) = existing_code (st' k) \<Longrightarrow>
   saveSubmissions st b k = saveSubmissions st' b k"
proof (induction b arbitrary: st st')
  case Nil
  then show ?case by simp
next
  case (Cons sub subs)
  have c: "existing_code (save_one st sub k) = existing_code (save_one st' sub k)"
    using Cons.prems(2) by (simp add: save_one_code)
  show ?case
  proof (cases "\<exists>s \<in> set subs. accepts s k")
    case True
    then show ?thesis
      using Cons.IH [OF True, of "save_one st sub" "save_one st' sub"] c by simp
  next
    case False
    then have a: "accepts sub k" using Cons.prems(1) by auto
    from False have "\<forall>s \<in> set subs. \<not> accepts s k" by blast
    then show ?thesis
      using save_one_cong [of sub k st st'] a Cons.prems(2)
      by (simp add: saveSubmissions_untouched)
  qed
qed

lemma saveSubmissions_twice_key:
  "saveSubmissions (saveSubmissions st b) b k = saveSubmissions st b k"
proof (cases "\<exists>sub \<in> set b. accepts sub k")
  case True
  show ?thesis
    by (rule saveSubmissions_cong [OF True]) (simp add: saveSubmissions_code)
next
  case False
  then show ?thesis by (simp add: saveSubmissions_untouched)
qed

lemma saveSubmissions_twice:
  "saveSubmissions (saveSubmissions st b) b = saveSubmissions st b"
  by (rule ext) (rule saveSubmissions_twice_key)

lemma save_one_rejected:
  "in_id sub = None \<or> in_id sub = Some 0 \<or> in_problem sub = None \<Longrightarrow> save_one st sub = st"
  by (auto simp: save_one_def split: option.splits)

lemma saveSubmissions_append:
  "saveSubmissions st (xs @ ys) = saveSubmissions (saveSubmissions st xs) ys"
  by (induction xs arbitrary: st) simp_all

text \<open>
  C1, as the claim states it, fails: the store holds a record under id 7 with a \<open>code\<close>; a
  batch brings a record with id 7 that supplies another \<open>code\<close>; after the merge the
  stored \<open>code\<close> is still the old one, not the incoming one.
\<close>

theorem C1_incoming_code_ignored:
  "in_id (ex_incoming (Some 7) (Some ex_problem) (Some ''print(1)'')) = Some 7 \<and>
   in_code (ex_incoming (Some 7) (Some ex_problem) (Some ''print(1)'')) = Some ''print(1)'' \<and>
   map_option sub_code (ex_store 7) = Some (Some ''int main() {}'') \<and>
   map_option sub_code
     (saveSubmissions ex_store [ex_incoming (Some 7) (Some ex_problem) (Some ''print(1)'')] 7)
     = Some (Some ''int main() {}'')"
  by (simp add: ex_incoming_def ex_store_def ex_stored_def save_one_def put_value_def
      existing_code_def)

text \<open>
  C1, amended: for every starting store and every batch, a record that is in the store
  before the merge is still there after it with its \<open>code\<close> field unchanged, whether the
  incoming records for its id omit \<open>code\<close> or supply one: \<open>saveSubmissions\<close> never reads an
  incoming \<open>code\<close>.
\<close>

theorem C1_sticky_code:
  "st k = Some e \<Longrightarrow>
   \<exists>e'. saveSubmissions st batch k = Some e' \<and> sub_code e' = sub_code e"
proof -
  assume e: "st k = Some e"
  then obtain e' where e': "saveSubmissions st batch k = Some e'"
    using saveSubmissions_dom [of st k e batch] by auto
  have "existing_code (saveSubmissions st batch k) = existing_code (st k)"
    by (rule saveSubmissions_code)
  with e e' have "sub_code e' = sub_code e" by (simp add: existing_code_def)
  with e' show ?thesis by blast
qed

theorem C1_sticky_code_witness:
  "ex_store 7 = Some (ex_stored 7 (Some ''int main() {}'')) \<and>
   (\<exists>e'. saveSubmissions ex_store
            [ex_incoming (Some 7) (Some ex_problem) None,
             ex_incoming (Some 7) (Some ex_problem) (Some ''print(1)'')] 7 = Some e' \<and>
          sub_code e' = Some ''int main() {}'')"
proof -
  have h: "ex_store 7 = Some (ex_stored 7 (Some ''int main() {}''))"
    by (simp add: ex_store_def)
  show ?thesis
    using h
      C1_sticky_code
        [of ex_store 7 "ex_stored 7 (Some ''int main() {}'')"
          "[ex_incoming (Some 7) (Some ex_problem) None,
            ex_incoming (Some 7) (Some ex_problem) (Some ''print(1)'')]"]
    by (simp add: ex_stored_def)
qed

text \<open>
  C4: merging the same batch a second time changes nothing. For every starting store and
  every batch, the store after two merges is the store after one: the same keys (each key
  holds one record, so there are no duplicates), the same record under each key, and the
  same record count.
\<close>

theorem C4_merge_idempotent:
  "saveSubmissions (saveSubmissions st batch) batch = saveSubmissions st batch \<and>
   dom (saveSubmissions (saveSubmissions st batch) batch) = dom (saveSubmissions st batch) \<and>
   getSubmissionCount (saveSubmissions (saveSubmissions st batch) batch)
     = getSubmissionCount (saveSubmissions st batch)"
  by (simp add: saveSubmissions_twice)

theorem C4_merge_idempotent_witness:
  "saveSubmissions
     (saveSubmissions ex_store
        [ex_incoming (Some 7) (Some ex_problem) None, ex_incoming (Some 9) (Some ex_problem) None])
     [ex_incoming (Some 7) (Some ex_problem) None, ex_incoming (Some 9) (Some ex_problem) None]
   = saveSubmissions ex_store
       [ex_incoming (Some 7) (Some ex_problem) None, ex_incoming (Some 9) (Some ex_problem) None]"
  using C4_merge_idempotent
    [of ex_store
      "[ex_incoming (Some 7) (Some ex_problem) None, ex_incoming (Some 9) (Some ex_problem) None]"]
  by blast

lemma put_value_cong:
  "existing_code a = existing_code b \<Longrightarrow> put_value i p s a = put_value i p s b"
  by (simp add: put_value_def)

lemma save_one_accepted:
  "in_id r = Some k \<Longrightarrow> k \<noteq> 0 \<Longrightarrow> in_problem r = Some p \<Longrightarrow>
   save_one st r k = Some (put_value k p r (st k))"
  by (simp add: save_one_def)

lemma saveSubmissions_key_zero: "saveSubmissions st b 0 = st 0"
  by (rule saveSubmissions_untouched) (simp add: accepts_def)

text \<open>
  The last record of a batch that passes the guard with key \<open>k\<close> decides what the merge
  leaves under \<open>k\<close>: its own fields, with the \<open>code\<close> found under \<open>k\<close> before the merge.
\<close>

lemma saveSubmissions_last_writer:
  assumes r: "in_id r = Some k" "k \<noteq> 0" "in_problem r = Some p"
    and ys: "\<forall>s \<in> set ys. \<not> accepts s k"
  shows "saveSubmissions st (xs @ r # ys) k = Some (put_value k p r (st k))"
proof -
  let ?st = "saveSubmissions st xs"
  have "saveSubmissions st (xs @ r # ys) k = saveSubmissions (save_one ?st r) ys k"
    by (simp add: saveSubmissions_append)
  also have "\<dots> = save_one ?st r k"
    using ys by (rule saveSubmissions_untouched)
  also have "\<dots> = Some (put_value k p r (?st k))"
    using r by (rule save_one_accepted)
  also have "put_value k p r (?st k) = put_value k p r (st k)"
    by (rule put_value_cong) (rule saveSubmissions_code)
  finally show ?thesis .
qed

lemma saveSubmissions_written:
  assumes "r \<in> set b" and "in_id r = Some k" "k \<noteq> 0" "in_problem r = Some p"
  shows "\<exists>e. saveSubmissions st b k = Some e \<and> sub_id e = k"
proof -
  from assms have "\<exists>x \<in> set b. accepts x k"
    by (auto simp: accepts_def)
  then obtain xs x ys where b: "b = xs @ x # ys" and x: "accepts x k"
    and ys: "\<forall>s \<in> set ys. \<not> accepts s k"
    using split_list_last_prop [of b "\<lambda>x. accepts x k"] by blast
  from x obtain q where q: "in_id x = Some k" "k \<noteq> 0" "in_problem x = Some q"
    by (auto simp: accepts_def)
  have "saveSubmissions st (xs @ x # ys) k = Some (put_value k q x (st k))"
    using q ys by (rule saveSubmissions_last_writer)
  with b show ?thesis by (simp add: put_value_def)
qed

text \<open>
  C10: a record whose id is absent, null or 0 is skipped even when it carries a complete
  problem reference, as is a record without a problem reference. For every store and every
  batch around such a record: the merge gives the same store as the merge of the batch
  without the record; nothing is ever written under the key 0; and the rest of the batch is
  applied: every other record that has an id other than 0 and a problem reference leaves a
  record under its id, and the last such record for an id \<open>k\<close> leaves exactly its own
  fields there, with the \<open>code\<close> found under \<open>k\<close> before the merge.
\<close>

theorem C10_falsy_id_skipped:
  "in_id sub = None \<or> in_id sub = Some 0 \<or> in_problem sub = None \<Longrightarrow>
   saveSubmissions st (before @ sub # after) = saveSubmissions st (before @ after) \<and>
   saveSubmissions st (before @ sub # after) 0 = st 0 \<and>
   (\<forall>r \<in> set (before @ after). \<forall>k p.
      in_id r = Some k \<and> k \<noteq> 0 \<and> in_problem r = Some p \<longrightarrow>
      (\<exists>e. saveSubmissions st (before @ sub # after) k = Some e \<and> sub_id e = k)) \<and>
   (\<forall>xs r ys k p.
      before @ after = xs @ r # ys \<and> in_id r = Some k \<and> k \<noteq> 0 \<and> in_problem r = Some p \<and>
      (\<forall>s \<in> set ys. \<not> (in_id s = Some k \<and> in_problem s \<noteq> None)) \<longrightarrow>
      saveSubmissions st (before @ sub # after) k = Some (put_value k p r (st k)))"
proof -
  assume h: "in_id sub = None \<or> in_id sub = Some 0 \<or> in_problem sub = None"
  have eq: "saveSubmissions st (before @ sub # after) = saveSubmissions st (before @ after)"
    using h by (simp add: saveSubmissions_append save_one_rejected)
  have zero: "saveSubmissions st (before @ sub # after) 0 = st 0"
    by (rule saveSubmissions_key_zero)
  have written: "\<exists>e. saveSubmissions st (before @ after) k = Some e \<and> sub_id e = k"
    if "r \<in> set (before @ after)" "in_id r = Some k" "k \<noteq> 0" "in_problem r = Some p"
    for r k p
    using that by (rule saveSubmissions_written)
  have last: "saveSubmissions st (before @ after) k = Some (put_value k p r (st k))"
    if "before @ after = xs @ r # ys" "in_id r = Some k" "k \<noteq> 0" "in_problem r = Some p"
      "\<forall>s \<in> set ys. \<not> (in_id s = Some k \<and> in_problem s \<noteq> None)"
    for xs r ys k p
  proof -
    from that(5) have "\<forall>s \<in> set ys. \<not> accepts s k"
      by (simp add: accepts_def)
    with that(2,3,4) have "saveSubmissions st (xs @ r # ys) k = Some (put_value k p r (st k))"
      by (rule saveSubmissions_last_writer)
    with that(1) show ?thesis by simp
  qed
  from zero written last show ?thesis
    unfolding eq by blast
qed

theorem C10_falsy_id_skipped_witness:
  "in_id (ex_incoming (Some 0) (Some ex_problem) None) = Some 0 \<and>
   in_problem (ex_incoming (Some 0) (Some ex_problem) None) = Some ex_problem \<and>
   saveSubmissions ex_store
     [ex_incoming (Some 7) (Some ex_problem) None, ex_incoming (Some 0) (Some ex_problem) None,
      ex_incoming (Some 9) (Some ex_problem) None]
   = saveSubmissions ex_store
       [ex_incoming (Some 7) (Some ex_problem) None, ex_incoming (Some 9) (Some ex_problem) None] \<and>
   saveSubmissions ex_store
     [ex_incoming (Some 7) (Some ex_problem) None, ex_incoming (Some 0) (Some ex_problem) None,
      ex_incoming (Some 9) (Some ex_problem) None] 0 = None \<and>
   ex_store 9 = None \<and>
   saveSubmissions ex_store
     [ex_incoming (Some 7) (Some ex_problem) None, ex_incoming (Some 0) (Some ex_problem) None,
      ex_incoming (Some 9) (Some ex_problem) None] 9
   = Some (put_value 9 ex_problem (ex_incoming (Some 9) (Some ex_problem) None) None)"
proof -
  let ?bad = "ex_incoming (Some 0) (Some ex_problem) None"
  let ?r7 = "ex_incoming (Some 7) (Some ex_problem) None"
  let ?r9 = "ex_incoming (Some 9) (Some ex_problem) None"
  have h: "in_id ?bad = None \<or> in_id ?bad = Some 0 \<or> in_problem ?bad = None"
    by (simp add: ex_incoming_def)
  have bad: "in_id ?bad = Some 0" "in_problem ?bad = Some ex_problem"
    by (simp_all add: ex_incoming_def)
  have s: "ex_store 0 = None" "ex_store 9 = None"
    by (simp_all add: ex_store_def)
  have l: "[?r7] @ [?r9] = [?r7] @ ?r9 # [] \<and> in_id ?r9 = Some 9 \<and> (9::int) \<noteq> 0 \<and>
           in_problem ?r9 = Some ex_problem \<and>
           (\<forall>s \<in> set []. \<not> (in_id s = Some (9::int) \<and> in_problem s \<noteq> None))"
    by (simp add: ex_incoming_def)
  note t = C10_falsy_id_skipped [OF h, of ex_store "[?r7]" "[?r9]"]
  have 1: "saveSubmissions ex_store [?r7, ?bad, ?r9] = saveSubmissions ex_store [?r7, ?r9]"
    using conjunct1 [OF t] by (simp only: append.simps)
  have "saveSubmissions ex_store [?r7, ?bad, ?r9] 0 = ex_store 0"
    using conjunct1 [OF conjunct2 [OF t]] by (simp only: append.simps)
  then have 2: "saveSubmissions ex_store [?r7, ?bad, ?r9] 0 = None"
    by (simp only: s)
  have "saveSubmissions ex_store ([?r7] @ ?bad # [?r9]) 9
          = Some (put_value 9 ex_problem ?r9 (ex_store 9))"
    using conjunct2 [OF conjunct2 [OF conjunct2 [OF t]]] l by blast
  then have 3: "saveSubmissions ex_store [?r7, ?bad, ?r9] 9
                  = Some (put_value 9 ex_problem ?r9 None)"
    by (simp only: s append.simps)
  show ?thesis
    by (intro conjI bad 1 2 s(2) 3)
qed

section \<open>Properties of the match predicate\<close>

lemma ratingMatch_zero: "ratingMatch mn mx (p\<lparr>p_rating := Some 0\<rparr>) = (mn = Some 0)"
  by (simp add: ratingMatch_def)

lemma ratingMatch_absent: "ratingMatch mn mx (p\<lparr>p_rating := None\<rparr>) = (mn = Some 0)"
  by (simp add: ratingMatch_def)

lemma textMatch_rating: "textMatch st lo (p\<lparr>p_rating := r\<rparr>) = textMatch st lo p"
  by (simp add: textMatch_def)

text \<open>
  C8, as the claim states it, fails for a rating that is present and equal to 0. With no
  lower bound and the upper bound \<open>-1\<close>, a problem with rating 0 matches (and is listed by
  the search), although 0 is not between the resolved bounds 0 and \<open>-1\<close>.
\<close>

theorem C8_zero_rating_ignores_max:
  "p_rating (ex_prob ''4A'' ''Watermelon'' (Some 0)) = Some 0 \<and>
   resolveMin '''' = Some 0 \<and> resolveMax ''-1'' = Some (- 1) \<and>
   isMatch '''' (toLowerCase '''') (resolveMin '''') (resolveMax ''-1'')
     (ex_prob ''4A'' ''Watermelon'' (Some 0)) \<and>
   \<not> ((0::int) \<le> 0 \<and> (0::int) \<le> - 1) \<and>
   map p_id (res_global (searchResults compare_codes '''' '''' ''-1'' []
     [ex_prob ''4A'' ''Watermelon'' (Some 0)])) = [''4A'']"
  by code_simp

text \<open>
  C8, amended: in the match predicate of the search and in the filter of the random pick,
  a problem with a rating that is present and not 0 passes the rating condition exactly
  when both bounds are numbers and \<open>min \<le> rating \<le> max\<close>; a problem with no rating passes it
  exactly when the minimum resolves to 0. So a problem with no rating is excluded whenever
  the minimum is above 0, in particular by the rating filter 1500 to 1900. (A rating equal
  to 0 is treated as absent.)
\<close>

theorem C8_rating_condition:
  "(p_rating p = Some r \<and> r \<noteq> 0 \<longrightarrow>
      isMatch searchText lower mn mx p
        = (textMatch searchText lower p \<and>
           (\<exists>a b. mn = Some a \<and> mx = Some b \<and> a \<le> r \<and> r \<le> b))) \<and>
   (p_rating p = None \<longrightarrow>
      isMatch searchText lower mn mx p = (textMatch searchText lower p \<and> mn = Some 0)) \<and>
   (p_rating p = Some r \<and> r \<noteq> 0 \<longrightarrow>
      poolMatch showStatus userStatus searchText lower mn mx p
        = (textMatch searchText lower p \<and>
           (\<exists>a b. mn = Some a \<and> mx = Some b \<and> a \<le> r \<and> r \<le> b) \<and>
           (\<not> showStatus \<or> userStatus (p_id p) \<noteq> Some OK))) \<and>
   (p_rating p = None \<longrightarrow>
      poolMatch showStatus userStatus searchText lower mn mx p
        = (textMatch searchText lower p \<and> mn = Some 0 \<and>
           (\<not> showStatus \<or> userStatus (p_id p) \<noteq> Some OK))) \<and>
   (p_rating p = None \<and> mn = Some a \<and> 0 < a \<longrightarrow>
      \<not> isMatch searchText lower mn mx p \<and>
      \<not> poolMatch showStatus userStatus searchText lower mn mx p) \<and>
   (p_rating p = None \<longrightarrow>
      \<not> isMatch searchText lower (resolveMin ''1500'') (resolveMax ''1900'') p \<and>
      \<not> poolMatch showStatus userStatus searchText lower (resolveMin ''1500'')
           (resolveMax ''1900'') p)"
proof -
  have m: "resolveMin ''1500'' = Some 1500" by code_simp
  show ?thesis
    by (auto simp: m isMatch_def poolMatch_def ratingMatch_def num_ge_def num_le_def
        split: option.splits)
qed

theorem C8_rating_condition_witness:
  "p_rating (ex_prob ''4A'' ''Watermelon'' (Some 1600)) = Some 1600 \<and>
   isMatch ''4a'' ''4a'' (resolveMin ''1500'') (resolveMax ''1900'')
     (ex_prob ''4A'' ''Watermelon'' (Some 1600)) \<and>
   p_rating (ex_prob ''4A'' ''Watermelon'' None) = None \<and>
   \<not> isMatch ''4a'' ''4a'' (resolveMin ''1500'') (resolveMax ''1900'')
       (ex_prob ''4A'' ''Watermelon'' None)"
proof -
  have r: "p_rating (ex_prob ''4A'' ''Watermelon'' (Some 1600)) = Some 1600 \<and> (1600::int) \<noteq> 0"
    by (simp add: ex_prob_def)
  have n: "p_rating (ex_prob ''4A'' ''Watermelon'' None) = None"
    by (simp add: ex_prob_def)
  have t: "textMatch ''4a'' ''4a'' (ex_prob ''4A'' ''Watermelon'' (Some 1600))"
    by code_simp
  have b: "resolveMin ''1500'' = Some 1500 \<and> resolveMax ''1900'' = Some 1900 \<and>
           (1500::int) \<le> 1600 \<and> (1600::int) \<le> 1900"
    by code_simp
  have yes: "isMatch ''4a'' ''4a'' (resolveMin ''1500'') (resolveMax ''1900'')
               (ex_prob ''4A'' ''Watermelon'' (Some 1600))"
    using r t b
      C8_rating_condition
        [of "ex_prob ''4A'' ''Watermelon'' (Some 1600)" 1600 "''4a''" "''4a''"
          "resolveMin ''1500''" "resolveMax ''1900''"]
    by blast
  have no: "\<not> isMatch ''4a'' ''4a'' (resolveMin ''1500'') (resolveMax ''1900'')
                (ex_prob ''4A'' ''Watermelon'' None)"
    using n C8_rating_condition [of "ex_prob ''4A'' ''Watermelon'' None"]
    by blast
  from r n yes no show ?thesis by blast
qed

text \<open>
  C9: a rating that is present but 0 is treated as an absent rating, by the match
  predicate of the search and by the filter of the random pick. For every problem, query
  and pair of bounds, the problem with rating 0 matches exactly when the problem with no
  rating does, which is when the text condition holds and the minimum resolves to 0 (and,
  for the random pick, the problem is not hidden as solved); the maximum plays no part.
\<close>

theorem C9_zero_rating_as_absent:
  "isMatch searchText lower mn mx (p\<lparr>p_rating := Some 0\<rparr>)
     = isMatch searchText lower mn mx (p\<lparr>p_rating := None\<rparr>) \<and>
   isMatch searchText lower mn mx (p\<lparr>p_rating := Some 0\<rparr>)
     = (textMatch searchText lower p \<and> mn = Some 0) \<and>
   poolMatch showStatus userStatus searchText lower mn mx (p\<lparr>p_rating := Some 0\<rparr>)
     = poolMatch showStatus userStatus searchText lower mn mx (p\<lparr>p_rating := None\<rparr>) \<and>
   poolMatch showStatus userStatus searchText lower mn mx (p\<lparr>p_rating := Some 0\<rparr>)
     = (textMatch searchText lower p \<and> mn = Some 0 \<and>
        (\<not> showStatus \<or> userStatus (p_id p) \<noteq> Some OK))"
  by (simp add: isMatch_def poolMatch_def ratingMatch_zero ratingMatch_absent textMatch_rating)

theorem C9_zero_rating_as_absent_witness:
  "isMatch ''4a'' ''4a'' (resolveMin '''') (resolveMax ''-1'')
     ((ex_prob ''4A'' ''Watermelon'' (Some 800))\<lparr>p_rating := Some 0\<rparr>) \<and>
   isMatch ''4a'' ''4a'' (resolveMin '''') (resolveMax ''-1'')
     ((ex_prob ''4A'' ''Watermelon'' (Some 800))\<lparr>p_rating := None\<rparr>) \<and>
   poolMatch True Map.empty ''4a'' ''4a'' (resolveMin '''') (resolveMax ''-1'')
     ((ex_prob ''4A'' ''Watermelon'' (Some 800))\<lparr>p_rating := Some 0\<rparr>)"
proof -
  have t: "textMatch ''4a'' ''4a'' (ex_prob ''4A'' ''Watermelon'' (Some 800))"
    by code_simp
  have m: "resolveMin '''' = Some 0"
    by (simp add: resolveMin_def)
  have n: "(Map.empty :: string \<rightharpoonup> status) (p_id (ex_prob ''4A'' ''Watermelon'' (Some 800)))
             \<noteq> Some OK"
    by simp
  show ?thesis
    using t m n
      C9_zero_rating_as_absent
        [of "''4a''" "''4a''" "resolveMin ''''" "resolveMax ''-1''"
          "ex_prob ''4A'' ''Watermelon'' (Some 800)" True Map.empty]
    by blast
qed

section \<open>Properties of the catalog refresh on failure\<close>

lemma refresh_body_failed:
  "outcome = Throws \<or> (\<exists>d. outcome = Reply d \<and> reply_status d \<noteq> ''OK'') \<Longrightarrow>
   refresh_body now outcome s = s"
  by (auto simp: refresh_body_def)

text \<open>
  C5: when the refresh fails, because the fetch throws or because the reply carries a
  status other than \<open>"OK"\<close>, the cached snapshot, the system folders and the three stored
  keys are as they were, and the network was asked once: the state after the call is the
  state before it with the loading flag cleared and one more request counted.
\<close>

theorem C5_failed_refresh_keeps_snapshot:
  "outcome = Throws \<or> (\<exists>d. outcome = Reply d \<and> reply_status d \<noteq> ''OK'') \<Longrightarrow>
   fetchCFProblems now outcome s = s \<lparr> isLoading := False, requests := requests s + 1 \<rparr> \<and>
   allProblemsCache (fetchCFProblems now outcome s) = allProblemsCache s \<and>
   systemFolders (fetchCFProblems now outcome s) = systemFolders s \<and>
   cf_all_problems_cache (fetchCFProblems now outcome s) = cf_all_problems_cache s \<and>
   cf_cache_time (fetchCFProblems now outcome s) = cf_cache_time s \<and>
   cf_sys_folders (fetchCFProblems now outcome s) = cf_sys_folders s \<and>
   requests (fetchCFProblems now outcome s) = requests s + 1"
  by (simp add: fetchCFProblems_def refresh_body_failed)

theorem C5_failed_refresh_keeps_snapshot_witness:
  "allProblemsCache
     (fetchCFProblems 1700000500000
        (Reply \<lparr> reply_status = ''FAILED'', reply_problems = None \<rparr>) ex_state)
     = [ex_prob ''4A'' ''Watermelon'' (Some 800)] \<and>
   systemFolders (fetchCFProblems 1700000500000 Throws ex_state) = [ex_folder] \<and>
   cf_cache_time (fetchCFProblems 1700000500000 Throws ex_state) = Some 1700000000000 \<and>
   requests (fetchCFProblems 1700000500000 Throws ex_state) = 1"
proof -
  have a: "Reply \<lparr> reply_status = ''FAILED'', reply_problems = None \<rparr> = Throws \<or>
           (\<exists>d. Reply \<lparr> reply_status = ''FAILED'', reply_problems = None \<rparr> = Reply d \<and>
                reply_status d \<noteq> ''OK'')"
    by simp
  have b: "Throws = Throws \<or> (\<exists>d. Throws = Reply d \<and> reply_status d \<noteq> ''OK'')"
    by simp
  show ?thesis
    using C5_failed_refresh_keeps_snapshot [OF a, of 1700000500000 ex_state]
      C5_failed_refresh_keeps_snapshot [OF b, of 1700000500000 ex_state]
    by (simp add: ex_state_def)
qed

section \<open>Properties of the export\<close>

lemma humanize_four:
  "humanize ''WRONG_ANSWER'' = ''Wrong Answer''"
  "humanize ''TIME_LIMIT_EXCEEDED'' = ''Time Limit Exceeded''"
  "humanize ''MEMORY_LIMIT_EXCEEDED'' = ''Memory Limit Exceeded''"
  "humanize ''RUNTIME_ERROR'' = ''Runtime Error''"
  by code_simp+

lemma humanize_empty: "humanize [] = []"
  by (simp add: humanize_def toLowerCase_def)

lemma verdict_ok: "formatVerdictDetailed ''OK'' n = ''Accepted''"
  by (simp add: formatVerdictDetailed_def)

lemma verdict_ce: "formatVerdictDetailed ''COMPILATION_ERROR'' n = ''Compilation Error''"
  by (simp add: formatVerdictDetailed_def)

lemma suffixed_texts_four:
  "formatVerdictDetailed ''WRONG_ANSWER'' n
     = ''Wrong Answer on test '' @ string_of_int (n + 1)"
  "formatVerdictDetailed ''TIME_LIMIT_EXCEEDED'' n
     = ''Time Limit Exceeded on test '' @ string_of_int (n + 1)"
  "formatVerdictDetailed ''MEMORY_LIMIT_EXCEEDED'' n
     = ''Memory Limit Exceeded on test '' @ string_of_int (n + 1)"
  "formatVerdictDetailed ''RUNTIME_ERROR'' n
     = ''Runtime Error on test '' @ string_of_int (n + 1)"
  by (simp_all add: formatVerdictDetailed_def humanize_four suffixed_texts_def)

lemma suffixed_four:
  "formatVerdictDetailed ''WRONG_ANSWER'' n
     = humanize ''WRONG_ANSWER'' @ '' on test '' @ string_of_int (n + 1)"
  "formatVerdictDetailed ''TIME_LIMIT_EXCEEDED'' n
     = humanize ''TIME_LIMIT_EXCEEDED'' @ '' on test '' @ string_of_int (n + 1)"
  "formatVerdictDetailed ''MEMORY_LIMIT_EXCEEDED'' n
     = humanize ''MEMORY_LIMIT_EXCEEDED'' @ '' on test '' @ string_of_int (n + 1)"
  "formatVerdictDetailed ''RUNTIME_ERROR'' n
     = humanize ''RUNTIME_ERROR'' @ '' on test '' @ string_of_int (n + 1)"
  by (simp_all only: suffixed_texts_four humanize_four append.simps)

lemma verdict_other:
  "v \<noteq> ''OK'' \<and> v \<noteq> ''COMPILATION_ERROR'' \<and> humanize v \<notin> set suffixed_texts \<longrightarrow>
   formatVerdictDetailed v n = humanize v"
  by (simp add: formatVerdictDetailed_def humanize_empty)

lemma verdict_alike:
  "v \<noteq> [] \<and> v \<noteq> ''OK'' \<and> v \<noteq> ''COMPILATION_ERROR'' \<and> humanize v \<in> set suffixed_texts \<longrightarrow>
   formatVerdictDetailed v n = humanize v @ '' on test '' @ string_of_int (n + 1)"
  by (simp add: formatVerdictDetailed_def)

lemma verdict_example: "formatVerdictDetailed ''WRONG_ANSWER'' 2 = ''Wrong Answer on test 3''"
  by code_simp

text \<open>
  On verdicts written as enumerators the humanized form determines the verdict: each
  character is read back from what it became, whether or not it was capitalised.
\<close>

lemma enumerator_chars_back:
  "list_all
     (\<lambda>c. unhumanize_char (toLowerCase_char (if c = CHR ''_'' then CHR '' '' else c)) = c \<and>
          unhumanize_char
            (toUpperCase_char (toLowerCase_char (if c = CHR ''_'' then CHR '' '' else c))) = c)
     ''ABCDEFGHIJKLMNOPQRSTUVWXYZ_''"
  by code_simp

lemma enumerator_char_back:
  assumes "c \<in> set ''ABCDEFGHIJKLMNOPQRSTUVWXYZ_''"
  shows "unhumanize_char (toLowerCase_char (if c = CHR ''_'' then CHR '' '' else c)) = c"
    and "unhumanize_char
           (toUpperCase_char (toLowerCase_char (if c = CHR ''_'' then CHR '' '' else c))) = c"
proof -
  have "\<forall>c \<in> set ''ABCDEFGHIJKLMNOPQRSTUVWXYZ_''.
          unhumanize_char (toLowerCase_char (if c = CHR ''_'' then CHR '' '' else c)) = c \<and>
          unhumanize_char
            (toUpperCase_char (toLowerCase_char (if c = CHR ''_'' then CHR '' '' else c))) = c"
    using enumerator_chars_back by (simp only: list_all_iff)
  from bspec [OF this assms]
  show "unhumanize_char (toLowerCase_char (if c = CHR ''_'' then CHR '' '' else c)) = c"
    and "unhumanize_char
           (toUpperCase_char (toLowerCase_char (if c = CHR ''_'' then CHR '' '' else c))) = c"
    by (rule conjunct1, rule conjunct2)
qed

lemma titleCase_back:
  "enumerator_like v \<Longrightarrow>
   unhumanize
     (titleCase prev (toLowerCase (map (\<lambda>c. if c = CHR ''_'' then CHR '' '' else c) v))) = v"
proof (induction v arbitrary: prev)
  case Nil
  then show ?case by (simp add: unhumanize_def toLowerCase_def)
next
  case (Cons c cs)
  from Cons.prems have "c \<in> set ''ABCDEFGHIJKLMNOPQRSTUVWXYZ_'' \<and> enumerator_like cs"
    by (simp only: enumerator_like_def list.pred_inject)
  then have c: "c \<in> set ''ABCDEFGHIJKLMNOPQRSTUVWXYZ_''" and cs: "enumerator_like cs"
    by (rule conjunct1, rule conjunct2)
  let ?l = "toLowerCase_char (if c = CHR ''_'' then CHR '' '' else c)"
  have ih: "unhumanize
      (titleCase (isWordChar ?l)
         (toLowerCase (map (\<lambda>c. if c = CHR ''_'' then CHR '' '' else c) cs))) = cs"
    using cs by (rule Cons.IH)
  have hd: "unhumanize_char (if isWordChar ?l \<and> \<not> prev then toUpperCase_char ?l else ?l) = c"
  proof (cases "isWordChar ?l \<and> \<not> prev")
    case True
    then have "(if isWordChar ?l \<and> \<not> prev then toUpperCase_char ?l else ?l)
                 = toUpperCase_char ?l"
      by (rule if_P)
    then show ?thesis by (simp only: enumerator_char_back(2) [OF c])
  next
    case False
    then have "(if isWordChar ?l \<and> \<not> prev then toUpperCase_char ?l else ?l) = ?l"
      by (rule if_not_P)
    then show ?thesis by (simp only: enumerator_char_back(1) [OF c])
  qed
  have "unhumanize
      (titleCase prev (toLowerCase (map (\<lambda>c. if c = CHR ''_'' then CHR '' '' else c) (c # cs))))
      = unhumanize_char (if isWordChar ?l \<and> \<not> prev then toUpperCase_char ?l else ?l)
        # unhumanize
            (titleCase (isWordChar ?l)
               (toLowerCase (map (\<lambda>c. if c = CHR ''_'' then CHR '' '' else c) cs)))"
    by (simp add: unhumanize_def toLowerCase_def)
  with hd ih show ?case by (simp only:)
qed

lemma unhumanize_humanize: "enumerator_like v \<Longrightarrow> unhumanize (humanize v) = v"
  unfolding humanize_def by (rule titleCase_back)

lemma unhumanize_texts:
  "map unhumanize suffixed_texts
     = [''WRONG_ANSWER'', ''TIME_LIMIT_EXCEEDED'', ''MEMORY_LIMIT_EXCEEDED'', ''RUNTIME_ERROR'']"
  by code_simp

lemma enumerator_suffixed:
  assumes e: "enumerator_like v" and h: "humanize v \<in> set suffixed_texts"
  shows "v \<in> set [''WRONG_ANSWER'', ''TIME_LIMIT_EXCEEDED'', ''MEMORY_LIMIT_EXCEEDED'',
           ''RUNTIME_ERROR'']"
proof -
  from h have "unhumanize (humanize v) \<in> unhumanize ` set suffixed_texts"
    by (rule imageI)
  then have "unhumanize (humanize v) \<in> set (map unhumanize suffixed_texts)"
    by (simp only: set_map)
  then show ?thesis
    by (simp only: unhumanize_humanize [OF e] unhumanize_texts)
qed

lemma verdict_enumerator:
  "enumerator_like v \<and> v \<noteq> ''OK'' \<and> v \<noteq> ''COMPILATION_ERROR'' \<and> v \<noteq> ''WRONG_ANSWER'' \<and>
   v \<noteq> ''TIME_LIMIT_EXCEEDED'' \<and> v \<noteq> ''MEMORY_LIMIT_EXCEEDED'' \<and> v \<noteq> ''RUNTIME_ERROR'' \<longrightarrow>
   formatVerdictDetailed v n = humanize v"
proof (intro impI, elim conjE)
  assume e: "enumerator_like v" and ok: "v \<noteq> ''OK''" and ce: "v \<noteq> ''COMPILATION_ERROR''"
    and four: "v \<noteq> ''WRONG_ANSWER''" "v \<noteq> ''TIME_LIMIT_EXCEEDED''"
      "v \<noteq> ''MEMORY_LIMIT_EXCEEDED''" "v \<noteq> ''RUNTIME_ERROR''"
  have n: "v \<notin> set [''WRONG_ANSWER'', ''TIME_LIMIT_EXCEEDED'', ''MEMORY_LIMIT_EXCEEDED'',
             ''RUNTIME_ERROR'']"
    by (simp only: list.set insert_iff empty_iff four simp_thms)
  have "humanize v \<notin> set suffixed_texts"
  proof
    assume "humanize v \<in> set suffixed_texts"
    from enumerator_suffixed [OF e this] n show False by (rule notE [rotated])
  qed
  with ok ce have "v \<noteq> ''OK'' \<and> v \<noteq> ''COMPILATION_ERROR'' \<and> humanize v \<notin> set suffixed_texts"
    by (intro conjI)
  with verdict_other [of v n] show "formatVerdictDetailed v n = humanize v"
    by (rule mp)
qed

text \<open>
  Outside the enumerators the test on the humanized text shows: the string \<open>wrong_answer\<close>
  is not \<open>WRONG_ANSWER\<close>, yet it is humanized to \<open>Wrong Answer\<close> and gets the suffix.
\<close>

lemma suffix_for_other_spelling:
  "\<not> enumerator_like ''wrong_answer'' \<and>
   humanize ''wrong_answer'' = ''Wrong Answer'' \<and>
   formatVerdictDetailed ''wrong_answer'' 0 = ''Wrong Answer on test 1''"
  by code_simp

text \<open>
  C6: for every submission record whose verdict is written as the enumerators of the
  remote service are (capital letters and underscores), the verdict cell is \<open>Accepted\<close> for
  \<open>OK\<close> and \<open>Compilation Error\<close> for \<open>COMPILATION_ERROR\<close>; for each of \<open>WRONG_ANSWER\<close>,
  \<open>TIME_LIMIT_EXCEEDED\<close>, \<open>MEMORY_LIMIT_EXCEEDED\<close>, \<open>RUNTIME_ERROR\<close> it is the humanized verdict
  (\<open>Wrong Answer\<close>, \<open>Time Limit Exceeded\<close>, \<open>Memory Limit Exceeded\<close>, \<open>Runtime Error\<close>)
  followed by \<open>" on test "\<close> and \<open>passedTestCount + 1\<close>; for any other verdict it is the
  humanized verdict with no suffix. The verdict \<open>WRONG_ANSWER\<close> with \<open>passedTestCount\<close> 2
  gives \<open>Wrong Answer on test 3\<close>. For an arbitrary string the cell is decided by the
  humanized text: no suffix when it is none of the four texts, the suffix when it is one.
\<close>

theorem C6_verdict_text:
  "formatVerdictDetailed ''OK'' n = ''Accepted'' \<and>
   formatVerdictDetailed ''COMPILATION_ERROR'' n = ''Compilation Error'' \<and>
   formatVerdictDetailed ''WRONG_ANSWER'' n
     = humanize ''WRONG_ANSWER'' @ '' on test '' @ string_of_int (n + 1) \<and>
   formatVerdictDetailed ''TIME_LIMIT_EXCEEDED'' n
     = humanize ''TIME_LIMIT_EXCEEDED'' @ '' on test '' @ string_of_int (n + 1) \<and>
   formatVerdictDetailed ''MEMORY_LIMIT_EXCEEDED'' n
     = humanize ''MEMORY_LIMIT_EXCEEDED'' @ '' on test '' @ string_of_int (n + 1) \<and>
   formatVerdictDetailed ''RUNTIME_ERROR'' n
     = humanize ''RUNTIME_ERROR'' @ '' on test '' @ string_of_int (n + 1) \<and>
   humanize ''WRONG_ANSWER'' = ''Wrong Answer'' \<and>
   humanize ''TIME_LIMIT_EXCEEDED'' = ''Time Limit Exceeded'' \<and>
   humanize ''MEMORY_LIMIT_EXCEEDED'' = ''Memory Limit Exceeded'' \<and>
   humanize ''RUNTIME_ERROR'' = ''Runtime Error'' \<and>
   (enumerator_like v \<and> v \<noteq> ''OK'' \<and> v \<noteq> ''COMPILATION_ERROR'' \<and> v \<noteq> ''WRONG_ANSWER'' \<and>
    v \<noteq> ''TIME_LIMIT_EXCEEDED'' \<and> v \<noteq> ''MEMORY_LIMIT_EXCEEDED'' \<and> v \<noteq> ''RUNTIME_ERROR'' \<longrightarrow>
      formatVerdictDetailed v n = humanize v) \<and>
   (v \<noteq> ''OK'' \<and> v \<noteq> ''COMPILATION_ERROR'' \<and> humanize v \<notin> set suffixed_texts \<longrightarrow>
      formatVerdictDetailed v n = humanize v) \<and>
   (v \<noteq> [] \<and> v \<noteq> ''OK'' \<and> v \<noteq> ''COMPILATION_ERROR'' \<and> humanize v \<in> set suffixed_texts \<longrightarrow>
      formatVerdictDetailed v n = humanize v @ '' on test '' @ string_of_int (n + 1)) \<and>
   formatVerdictDetailed ''WRONG_ANSWER'' 2 = ''Wrong Answer on test 3''"
  by (intro conjI verdict_ok verdict_ce suffixed_four humanize_four verdict_enumerator
      verdict_other verdict_alike verdict_example)

theorem C6_verdict_text_witness:
  "enumerator_like ''IDLENESS_LIMIT_EXCEEDED'' \<and>
   formatVerdictDetailed ''IDLENESS_LIMIT_EXCEEDED'' 11 = ''Idleness Limit Exceeded'' \<and>
   formatVerdictDetailed ''Runtime error'' 0 = ''Runtime Error on test 1''"
proof -
  have e: "enumerator_like ''IDLENESS_LIMIT_EXCEEDED''"
    by code_simp
  have b: "''IDLENESS_LIMIT_EXCEEDED'' \<noteq> ''OK'' \<and>
           ''IDLENESS_LIMIT_EXCEEDED'' \<noteq> ''COMPILATION_ERROR'' \<and>
           ''IDLENESS_LIMIT_EXCEEDED'' \<noteq> ''WRONG_ANSWER'' \<and>
           ''IDLENESS_LIMIT_EXCEEDED'' \<noteq> ''TIME_LIMIT_EXCEEDED'' \<and>
           ''IDLENESS_LIMIT_EXCEEDED'' \<noteq> ''MEMORY_LIMIT_EXCEEDED'' \<and>
           ''IDLENESS_LIMIT_EXCEEDED'' \<noteq> ''RUNTIME_ERROR''"
    by code_simp
  have b': "humanize ''IDLENESS_LIMIT_EXCEEDED'' = ''Idleness Limit Exceeded''"
    by code_simp
  have c: "''Runtime error'' \<noteq> [] \<and> ''Runtime error'' \<noteq> ''OK'' \<and>
           ''Runtime error'' \<noteq> ''COMPILATION_ERROR'' \<and>
           humanize ''Runtime error'' \<in> set suffixed_texts"
    by code_simp
  have c': "humanize ''Runtime error'' @ '' on test '' @ string_of_int (0 + 1)
              = ''Runtime Error on test 1''"
    by code_simp
  note t = C6_verdict_text [of 11 "''IDLENESS_LIMIT_EXCEEDED''"]
  note u = C6_verdict_text [of 0 "''Runtime error''"]
  have 1: "formatVerdictDetailed ''IDLENESS_LIMIT_EXCEEDED'' 11
             = humanize ''IDLENESS_LIMIT_EXCEEDED''"
    by (rule mp
          [OF t [THEN conjunct2, THEN conjunct2, THEN conjunct2, THEN conjunct2, THEN conjunct2,
                 THEN conjunct2, THEN conjunct2, THEN conjunct2, THEN conjunct2, THEN conjunct2,
                 THEN conjunct1]
              conjI [OF e b]])
  have 2: "formatVerdictDetailed ''Runtime error'' 0
             = humanize ''Runtime error'' @ '' on test '' @ string_of_int (0 + 1)"
    by (rule mp
          [OF u [THEN conjunct2, THEN conjunct2, THEN conjunct2, THEN conjunct2, THEN conjunct2,
                 THEN conjunct2, THEN conjunct2, THEN conjunct2, THEN conjunct2, THEN conjunct2,
                 THEN conjunct2, THEN conjunct2, THEN conjunct1]
              c])
  from 1 have i1: "formatVerdictDetailed ''IDLENESS_LIMIT_EXCEEDED'' 11 = ''Idleness Limit Exceeded''"
    by (simp only: b')
  from 2 have i2: "formatVerdictDetailed ''Runtime error'' 0 = ''Runtime Error on test 1''"
    by (simp only: c')
  show ?thesis by (intro conjI e i1 i2)
qed

text \<open>What holds of every export: the byte-order mark and the quoting of the name.\<close>

lemma csvContent_bom: "take 3 (csvContent formatFullDate data) = bom"
  by (simp add: csvContent_def bom_def)

lemma row_values_cells:
  "row_values formatFullDate row ! 3 = in_quotes (double_quotes (sub_name row))"
  "row_values formatFullDate row ! 5
     = in_quotes (formatVerdictDetailed (sub_verdict row) (sub_passedTestCount row))"
  "row_values formatFullDate row ! 6 = in_quotes (sub_programmingLanguage row)"
  "row_values formatFullDate row ! 9 = in_quotes (formatFullDate (sub_creationTimeSeconds row))"
  by (simp_all add: row_values_def Let_def)

lemma double_quotes_example:
  "in_quotes (double_quotes (''He said '' @ [dq] @ ''hi'' @ [dq]))
     = [dq] @ ''He said '' @ [dq, dq] @ ''hi'' @ [dq, dq] @ [dq]"
  by code_simp

text \<open>
  C3 on a record whose language is \<open>C "11"\<close> and whose name is \<open>He said "hi"\<close>: in the row
  the quotes of the name are doubled, those of the language are not (the cell is the
  language between two quotes, as it stands), and the file starts with the byte-order mark.
\<close>

theorem C3_language_quotes_not_doubled:
  "row_values ex_date ex_quoted ! 3
     = [dq] @ ''He said '' @ [dq, dq] @ ''hi'' @ [dq, dq] @ [dq] \<and>
   row_values ex_date ex_quoted ! 6 = [dq] @ ''C '' @ [dq] @ ''11'' @ [dq] @ [dq] \<and>
   row_values ex_date ex_quoted ! 6
     \<noteq> in_quotes (double_quotes (sub_programmingLanguage ex_quoted)) \<and>
   csv_row ex_date ex_quoted
     = ''7,4,A,'' @ [dq] @ ''He said '' @ [dq, dq] @ ''hi'' @ [dq, dq] @ [dq] @ '',800,''
       @ [dq] @ ''Wrong Answer on test 3'' @ [dq] @ '','' @ [dq] @ ''C '' @ [dq] @ ''11'' @ [dq]
       @ [dq] @ '',0,2,'' @ [dq] @ ''2023-11-14 22:13:20'' @ [dq] \<and>
   take 3 (csvContent ex_date [ex_quoted]) = bom \<and>
   handleExportHistory ex_date 1 ''csv'' False [ex_quoted]
     = CsvFile (csvContent ex_date [ex_quoted])"
  by code_simp

section \<open>Properties of the catalog ingestion\<close>

text \<open>The decimal rendering can be read back, so it is injective.\<close>

lemma digit_char_cases:
  "d < 10 \<Longrightarrow> d = 0 \<or> d = 1 \<or> d = 2 \<or> d = 3 \<or> d = 4 \<or> d = 5 \<or> d = 6 \<or> d = 7 \<or> d = 8 \<or> d = (9::nat)"
  by arith

lemma digit_value_digit_char: "d < 10 \<Longrightarrow> digit_value (digit_char d) = Some d"
  using digit_char_cases [of d] by (auto simp: digit_value_def digit_char_def)

lemma digit_char_is_digit: "d < 10 \<Longrightarrow> digit_char d \<in> set ''0123456789''"
  using digit_char_cases [of d] by (auto simp: digit_char_def)

lemma digits_value_snoc:
  "digits_value R dv (z @ [c])
     = (case dv c of None \<Rightarrow> digits_value R dv z | Some d \<Rightarrow> digits_value R dv z * R + d)"
  by (simp add: digits_value_def split: option.splits)

lemma digits_value_single:
  "digits_value R dv [c] = (case dv c of None \<Rightarrow> 0 | Some d \<Rightarrow> d)"
  by (simp add: digits_value_def split: option.splits)

lemma string_of_nat_read_back: "digits_value 10 digit_value (string_of_nat n) = n"
proof (induction n rule: string_of_nat.induct)
  case (1 n)
  show ?case
  proof (cases "n < 10")
    case True
    then show ?thesis
      by (simp add: string_of_nat.simps [of n] digits_value_single digit_value_digit_char)
  next
    case False
    have "n mod 10 < 10" by simp
    then have "digit_value (digit_char (n mod 10)) = Some (n mod 10)"
      by (rule digit_value_digit_char)
    with False "1.IH" show ?thesis
      by (simp add: string_of_nat.simps [of n] digits_value_snoc)
  qed
qed

lemma string_of_nat_inj:
  assumes "string_of_nat n = string_of_nat m"
  shows "n = m"
proof -
  have "n = digits_value 10 digit_value (string_of_nat n)"
    by (simp only: string_of_nat_read_back)
  also have "\<dots> = digits_value 10 digit_value (string_of_nat m)"
    by (simp only: assms)
  also have "\<dots> = m"
    by (simp only: string_of_nat_read_back)
  finally show ?thesis .
qed

lemma string_of_nat_digits: "set (string_of_nat n) \<subseteq> set ''0123456789''"
proof (induction n rule: string_of_nat.induct)
  case (1 n)
  show ?case
  proof (cases "n < 10")
    case True
    then show ?thesis
      using digit_char_is_digit [of n] by (simp add: string_of_nat.simps [of n])
  next
    case False
    have "digit_char (n mod 10) \<in> set ''0123456789''"
      by (rule digit_char_is_digit) simp
    with False "1.IH" show ?thesis
      by (simp add: string_of_nat.simps [of n])
  qed
qed

lemma string_of_nat_nonempty: "string_of_nat n \<noteq> []"
  by (simp add: string_of_nat.simps [of n])

lemma takeWhile_digits:
  assumes "\<not> starts_with_digit i"
  shows "takeWhile (\<lambda>c. c \<in> set ''0123456789'') (string_of_nat n @ i) = string_of_nat n"
proof -
  have a: "\<forall>c \<in> set (string_of_nat n). c \<in> set ''0123456789''"
    using string_of_nat_digits [of n] by blast
  have b: "takeWhile (\<lambda>c. c \<in> set ''0123456789'') i = []"
    using assms by (cases i) (simp_all add: starts_with_digit_def)
  have "takeWhile (\<lambda>c. c \<in> set ''0123456789'') (string_of_nat n @ i)
          = string_of_nat n @ takeWhile (\<lambda>c. c \<in> set ''0123456789'') i"
    by (rule takeWhile_append2) (use a in blast)
  with b show ?thesis by simp
qed

lemma nat_concat_inj:
  assumes "string_of_nat n @ i = string_of_nat m @ j"
    and "\<not> starts_with_digit i" and "\<not> starts_with_digit j"
  shows "n = m \<and> i = j"
proof -
  have "string_of_nat n = string_of_nat m"
    using takeWhile_digits [OF assms(2), of n] takeWhile_digits [OF assms(3), of m] assms(1)
    by simp
  then have "n = m" by (rule string_of_nat_inj)
  with assms(1) show ?thesis by simp
qed

lemma string_of_nat_head: "\<exists>c cs. string_of_nat n = c # cs \<and> c \<in> set ''0123456789''"
proof (cases "string_of_nat n")
  case Nil
  then show ?thesis using string_of_nat_nonempty [of n] by simp
next
  case (Cons c cs)
  then show ?thesis using string_of_nat_digits [of n] by auto
qed

lemma string_of_int_head: "\<exists>c cs. string_of_int k = c # cs \<and> c \<in> set ''-0123456789''"
  using string_of_nat_head [of "nat k"] by (auto simp: string_of_int_def)

lemma int_concat_inj:
  assumes "string_of_int a @ i = string_of_int b @ j"
    and "\<not> starts_with_digit i" and "\<not> starts_with_digit j"
  shows "a = b \<and> i = j"
proof (cases "a < 0"; cases "b < 0")
  assume neg: "a < 0" "b < 0"
  with assms(1) have "string_of_nat (nat (- a)) @ i = string_of_nat (nat (- b)) @ j"
    by (simp add: string_of_int_def)
  from nat_concat_inj [OF this assms(2,3)] neg show ?thesis by auto
next
  assume mixed: "a < 0" "\<not> b < 0"
  obtain c cs where "string_of_nat (nat b) = c # cs" "c \<in> set ''0123456789''"
    using string_of_nat_head [of "nat b"] by blast
  with mixed assms(1) show ?thesis by (auto simp: string_of_int_def)
next
  assume mixed: "\<not> a < 0" "b < 0"
  obtain c cs where "string_of_nat (nat a) = c # cs" "c \<in> set ''0123456789''"
    using string_of_nat_head [of "nat a"] by blast
  with mixed assms(1) show ?thesis by (auto simp: string_of_int_def)
next
  assume pos: "\<not> a < 0" "\<not> b < 0"
  with assms(1) have "string_of_nat (nat a) @ i = string_of_nat (nat b) @ j"
    by (simp add: string_of_int_def)
  from nat_concat_inj [OF this assms(2,3)] pos show ?thesis by auto
qed

lemma template_concat_inj:
  assumes "template_num a @ i = template_num b @ j"
    and "\<not> starts_with_digit i" and "\<not> starts_with_digit j"
  shows "a = b \<and> i = j"
proof (cases a; cases b)
  assume "a = None" "b = None"
  with assms(1) show ?thesis by (simp add: template_num_def)
next
  fix k assume ab: "a = None" "b = Some k"
  obtain c cs where "string_of_int k = c # cs" "c \<in> set ''-0123456789''"
    using string_of_int_head [of k] by blast
  with ab assms(1) show ?thesis by (auto simp: template_num_def)
next
  fix k assume ab: "a = Some k" "b = None"
  obtain c cs where "string_of_int k = c # cs" "c \<in> set ''-0123456789''"
    using string_of_int_head [of k] by blast
  with ab assms(1) show ?thesis by (auto simp: template_num_def)
next
  fix k l assume ab: "a = Some k" "b = Some l"
  with assms(1) have "string_of_int k @ i = string_of_int l @ j"
    by (simp add: template_num_def)
  from int_concat_inj [OF this assms(2,3)] ab show ?thesis by simp
qed

lemma refresh_ok:
  "reply_status d = ''OK'' \<Longrightarrow> reply_problems d = Some problems \<Longrightarrow>
   allProblemsCache (fetchCFProblems now (Reply d) s) = map ingest problems"
  by (simp add: fetchCFProblems_def refresh_body_def Let_def)

lemma ingest_ids_distinct:
  assumes d: "distinct (map (\<lambda>r. (ap_contestId r, ap_index r)) problems)"
    and i: "\<forall>r \<in> set problems. \<not> starts_with_digit (ap_index r)"
  shows "distinct (map p_id (map ingest problems))"
proof -
  have inj: "inj_on (\<lambda>r. template_num (ap_contestId r) @ ap_index r) (set problems)"
  proof (rule inj_onI)
    fix x y assume xy: "x \<in> set problems" "y \<in> set problems"
      and eq: "template_num (ap_contestId x) @ ap_index x
                 = template_num (ap_contestId y) @ ap_index y"
    from xy i have "\<not> starts_with_digit (ap_index x)" "\<not> starts_with_digit (ap_index y)"
      by auto
    from template_concat_inj [OF eq this]
    have k: "(ap_contestId x, ap_index x) = (ap_contestId y, ap_index y)" by simp
    from d have "inj_on (\<lambda>r. (ap_contestId r, ap_index r)) (set problems)"
      by (simp add: distinct_map)
    from inj_onD [OF this k xy] show "x = y" .
  qed
  from d have "distinct problems" by (simp add: distinct_map)
  with inj have "distinct (map (\<lambda>r. template_num (ap_contestId r) @ ap_index r) problems)"
    by (simp add: distinct_map)
  then show ?thesis by (simp add: ingest_def comp_def)
qed

text \<open>
  C7, as the claim states it, fails: the refresh does no de-duplication. A remote list
  that holds the same entry twice gives a snapshot with the id \<open>4A\<close> twice; and the two
  different entries (contest 1, index \<open>1A\<close>) and (contest 11, index \<open>A\<close>) both get the id
  \<open>11A\<close>.
\<close>

theorem C7_ids_can_repeat:
  "map p_id (allProblemsCache (fetchCFProblems 1700000500000
       (ex_reply [ex_entry (Some 4) ''A'', ex_entry (Some 4) ''A'']) ex_state))
     = [''4A'', ''4A''] \<and>
   map p_id (allProblemsCache (fetchCFProblems 1700000500000
       (ex_reply [ex_entry (Some 1) ''1A'', ex_entry (Some 11) ''A'']) ex_state))
     = [''11A'', ''11A'']"
  by code_simp

text \<open>
  C7, amended: after a successful refresh the snapshot holds one problem per remote entry,
  in the same order, each with the entry's contest id and with the id that is the
  concatenation of the contest id and the entry's index. The ids are unique within the
  snapshot whenever no two remote entries have the same contest id and index and no index
  starts with a decimal digit; the refresh itself removes no duplicates.
\<close>

theorem C7_ingested_ids:
  "reply_status d = ''OK'' \<Longrightarrow> reply_problems d = Some problems \<Longrightarrow>
   map p_id (allProblemsCache (fetchCFProblems now (Reply d) s))
     = map (\<lambda>r. template_num (ap_contestId r) @ ap_index r) problems \<and>
   map p_contestId (allProblemsCache (fetchCFProblems now (Reply d) s))
     = map ap_contestId problems \<and>
   (distinct (map (\<lambda>r. (ap_contestId r, ap_index r)) problems) \<and>
    (\<forall>r \<in> set problems. \<not> starts_with_digit (ap_index r)) \<longrightarrow>
      distinct (map p_id (allProblemsCache (fetchCFProblems now (Reply d) s))))"
proof -
  assume ok: "reply_status d = ''OK''" "reply_problems d = Some problems"
  have c: "allProblemsCache (fetchCFProblems now (Reply d) s) = map ingest problems"
    using ok by (rule refresh_ok)
  have 1: "map p_id (map ingest problems)
             = map (\<lambda>r. template_num (ap_contestId r) @ ap_index r) problems"
    by (simp add: ingest_def comp_def)
  have 2: "map p_contestId (map ingest problems) = map ap_contestId problems"
    by (simp add: ingest_def comp_def)
  have 3: "distinct (map (\<lambda>r. (ap_contestId r, ap_index r)) problems) \<and>
           (\<forall>r \<in> set problems. \<not> starts_with_digit (ap_index r)) \<longrightarrow>
             distinct (map p_id (map ingest problems))"
    using ingest_ids_distinct [of problems] by blast
  from 1 2 3 show ?thesis by (simp only: c simp_thms)
qed

theorem C7_ingested_ids_witness:
  "map p_id (allProblemsCache (fetchCFProblems 1700000500000
       (ex_reply [ex_entry (Some 4) ''A'', ex_entry (Some 1504) ''A'', ex_entry None ''B1''])
       ex_state))
     = [''4A'', ''1504A'', ''undefinedB1''] \<and>
   distinct (map p_id (allProblemsCache (fetchCFProblems 1700000500000
       (ex_reply [ex_entry (Some 4) ''A'', ex_entry (Some 1504) ''A'', ex_entry None ''B1''])
       ex_state)))"
proof -
  let ?ps = "[ex_entry (Some 4) ''A'', ex_entry (Some 1504) ''A'', ex_entry None ''B1'']"
  let ?d = "\<lparr> reply_status = ''OK'', reply_problems = Some ?ps \<rparr>"
  have s: "reply_status ?d = ''OK''" by simp
  have p: "reply_problems ?d = Some ?ps" by simp
  have h: "distinct (map (\<lambda>r. (ap_contestId r, ap_index r)) ?ps) \<and>
           (\<forall>r \<in> set ?ps. \<not> starts_with_digit (ap_index r))"
    by (simp add: ex_entry_def starts_with_digit_def)
  have v: "map (\<lambda>r. template_num (ap_contestId r) @ ap_index r) ?ps
             = [''4A'', ''1504A'', ''undefinedB1'']"
    by code_simp
  show ?thesis
    using C7_ingested_ids [OF s p, of 1700000500000 ex_state] h v
    by (simp add: ex_reply_def)
qed

section \<open>Properties of the ranking\<close>

lemma set_insert_by: "set (insert_by cmp x ys) = insert x (set ys)"
  by (induction ys) auto

lemma set_array_sort: "set (array_sort cmp xs) = set xs"
  by (induction xs) (simp_all add: array_sort_def set_insert_by)

lemma length_insert_by: "length (insert_by cmp x ys) = Suc (length ys)"
  by (induction ys) auto

lemma length_array_sort: "length (array_sort cmp xs) = length xs"
  by (induction xs) (simp_all add: array_sort_def length_insert_by)

lemma compare_le:
  "compareProblems lc st lo a b \<le> 0 \<Longrightarrow> key_le st lo a b"
  by (auto simp: compareProblems_def key_le_def Let_def split: if_splits)

lemma compare_gt:
  "\<not> compareProblems lc st lo a b \<le> 0 \<Longrightarrow> key_le st lo b a"
  by (auto simp: compareProblems_def key_le_def Let_def split: if_splits)

lemma key_le_refl: "key_le st lo a a"
  by (simp add: key_le_def)

lemma key_le_trans: "key_le st lo a b \<Longrightarrow> key_le st lo b c \<Longrightarrow> key_le st lo a c"
  by (auto simp: key_le_def)

lemma sorted_insert_by:
  "sorted_wrt (key_le st lo) ys \<Longrightarrow>
   sorted_wrt (key_le st lo) (insert_by (compareProblems lc st lo) x ys)"
proof (induction ys)
  case Nil
  then show ?case by simp
next
  case (Cons y ys)
  show ?case
  proof (cases "compareProblems lc st lo x y \<le> 0")
    case True
    then have xy: "key_le st lo x y" by (rule compare_le)
    have "\<forall>z \<in> set ys. key_le st lo x z"
      using Cons.prems xy by (auto intro: key_le_trans)
    with True xy Cons.prems show ?thesis by simp
  next
    case False
    then have yx: "key_le st lo y x" by (rule compare_gt)
    from Cons have "sorted_wrt (key_le st lo) (insert_by (compareProblems lc st lo) x ys)"
      by simp
    with False yx Cons.prems show ?thesis by (simp add: set_insert_by)
  qed
qed

lemma sorted_sortProblems: "sorted_wrt (key_le st lo) (sortProblems lc st lo xs)"
  by (induction xs) (simp_all add: sortProblems_def array_sort_def sorted_insert_by)

lemma earlier:
  assumes s: "sorted_wrt (key_le st lo) g"
    and i: "i < length g" and j: "j < length g"
    and n: "\<not> key_le st lo (g ! j) (g ! i)"
  shows "i < j"
proof (rule ccontr)
  assume "\<not> i < j"
  then consider "j < i" | "j = i" by arith
  then show False
  proof cases
    case 1
    from sorted_wrt_nth_less [OF s 1 i] n show False by simp
  next
    case 2
    with n show False by (simp add: key_le_refl)
  qed
qed

lemma lower_4a: "toLowerCase ''4a'' = ''4a''"
  by code_simp

lemma lower_ids:
  "toLowerCase ''4A'' = ''4a''" "toLowerCase ''44A'' = ''44a''"
  "toLowerCase ''1504A'' = ''1504a''"
  by code_simp+

lemma id_checks:
  "includes_str ''4a'' ''4a''" "includes_str ''44a'' ''4a''" "includes_str ''1504a'' ''4a''"
  "\<not> startsWith ''44a'' ''4a''" "\<not> startsWith ''1504a'' ''4a''"
  by code_simp+

lemma global_4a:
  "res_global (searchResults lc ''4a'' '''' '''' folders cat)
     = take 50 (sortProblems lc ''4a'' ''4a''
         (filter (isMatch ''4a'' ''4a'' (Some 0) (Some 10000)) cat))"
  by (simp add: searchResults_def resolveMin_def resolveMax_def Let_def lower_4a)

lemma sorted_global_4a:
  "sorted_wrt (key_le ''4a'' ''4a'') (res_global (searchResults lc ''4a'' '''' '''' folders cat))"
  by (simp only: global_4a sorted_wrt_take sorted_sortProblems)

lemma score_exact: "toLowerCase (p_id p) = ''4a'' \<Longrightarrow> getScore ''4a'' ''4a'' p = 0"
  by (simp add: getScore_def)

lemma score_not_exact: "toLowerCase (p_id p) \<noteq> ''4a'' \<Longrightarrow> 1 \<le> getScore ''4a'' ''4a'' p"
  by (simp add: getScore_def Let_def)

lemma score_name: "startsWith (toLowerCase (p_name p)) ''4a'' \<Longrightarrow> getScore ''4a'' ''4a'' p \<le> 2"
  by (simp add: getScore_def Let_def)

lemma score_substring:
  "p_id p = ''44A'' \<or> p_id p = ''1504A'' \<Longrightarrow>
   getScore ''4a'' ''4a'' p = (if startsWith (toLowerCase (p_name p)) ''4a'' then 2 else 3)"
  by (auto simp: getScore_def Let_def lower_ids id_checks)

lemma match_ids:
  assumes "p_id p = ''4A'' \<or> p_id p = ''44A'' \<or> p_id p = ''1504A''"
    and "case p_rating p of None \<Rightarrow> True | Some r \<Rightarrow> 0 \<le> r \<and> r \<le> 10000"
  shows "isMatch ''4a'' ''4a'' (Some 0) (Some 10000) p"
proof -
  from assms(1) consider "p_id p = ''4A''" | "p_id p = ''44A''" | "p_id p = ''1504A''"
    by blast
  then have "includes_str (toLowerCase (p_id p)) ''4a''"
    by cases (simp_all only: lower_ids id_checks)
  then have t: "textMatch ''4a'' ''4a'' p" by (simp add: textMatch_def)
  from assms(2) have "ratingMatch (Some 0) (Some 10000) p"
    by (simp add: ratingMatch_def num_ge_def num_le_def split: option.splits)
  with t show ?thesis by (simp add: isMatch_def)
qed

text \<open>
  C2, as the claim states it, fails. For the query \<open>4a\<close> with no rating bounds over the
  catalog with the ids \<open>4A\<close> (rating 1200), \<open>1504A\<close>, \<open>44A\<close> and a problem \<open>100B\<close> whose name
  starts with \<open>4a\<close>, the global result is \<open>4A\<close>, \<open>100B\<close>, \<open>44A\<close>, \<open>1504A\<close>: \<open>1504A\<close> is not
  excluded, since \<open>4a\<close> is a substring of its lowercased id; and \<open>44A\<close> is not a prefix match
  (\<open>44a\<close> does not start with \<open>4a\<close>), so it comes after the problem whose name starts with
  \<open>4a\<close>, not before.
\<close>

theorem C2_1504A_is_listed:
  "map p_id (res_global (searchResults compare_codes ''4a'' '''' '''' [] ex_catalog))
     = [''4A'', ''100B'', ''44A'', ''1504A''] \<and>
   includes_str (toLowerCase ''1504A'') (toLowerCase ''4a'') \<and>
   \<not> startsWith (toLowerCase ''44A'') (toLowerCase ''4a'') \<and>
   map p_id (res_global (searchResults compare_codes ''4a'' '''' '''' []
       [ex_prob ''4A'' ''Watermelon'' (Some 1200), ex_prob ''1504A'' ''Deja Vu'' (Some 800),
        ex_prob ''44A'' ''Indian Summer'' (Some 900)]))
     = [''4A'', ''44A'', ''1504A'']"
  by code_simp

text \<open>
  C2, amended: for the query \<open>4a\<close> with no rating bounds, over any catalog, any folders and
  any collation, the global result \<open>g\<close> ranks \<open>4A\<close> (exact match, score 0) before every
  result whose lowercased id is not \<open>4a\<close>, so before \<open>44A\<close>, before \<open>1504A\<close> and before any
  problem matched through its name; it ranks every problem whose name starts with \<open>4a\<close>
  before \<open>44A\<close> and \<open>1504A\<close> (when their own names do not start with \<open>4a\<close>), which are
  substring matches of score 3, not prefix matches; and it ranks \<open>44A\<close> before \<open>1504A\<close>
  (shorter id). \<open>1504A\<close> is not excluded: a catalog problem with id \<open>4A\<close>, \<open>44A\<close> or \<open>1504A\<close>
  and a rating that is absent or between 0 and 10000 is in the result, provided the
  matches are at most 50 (the result keeps the first 50).
\<close>

theorem C2_ranking_4a:
  assumes g: "g = res_global (searchResults lc ''4a'' '''' '''' folders cat)"
  shows
    "(\<forall>i j. i < length g \<and> j < length g \<and> p_id (g ! i) = ''4A'' \<and>
            toLowerCase (p_id (g ! j)) \<noteq> ''4a'' \<longrightarrow> i < j) \<and>
     (\<forall>i j. i < length g \<and> j < length g \<and>
            startsWith (toLowerCase (p_name (g ! i))) ''4a'' \<and>
            (p_id (g ! j) = ''44A'' \<or> p_id (g ! j) = ''1504A'') \<and>
            \<not> startsWith (toLowerCase (p_name (g ! j))) ''4a'' \<longrightarrow> i < j) \<and>
     (\<forall>i j. i < length g \<and> j < length g \<and> p_id (g ! i) = ''44A'' \<and>
            p_id (g ! j) = ''1504A'' \<and>
            \<not> startsWith (toLowerCase (p_name (g ! j))) ''4a'' \<longrightarrow> i < j) \<and>
     (\<forall>p \<in> set cat.
        (p_id p = ''4A'' \<or> p_id p = ''44A'' \<or> p_id p = ''1504A'') \<and>
        (case p_rating p of None \<Rightarrow> True | Some r \<Rightarrow> 0 \<le> r \<and> r \<le> 10000) \<and>
        length (filter (isMatch ''4a'' ''4a'' (Some 0) (Some 10000)) cat) \<le> 50 \<longrightarrow>
        p \<in> set g)"
proof -
  have s: "sorted_wrt (key_le ''4a'' ''4a'') g"
    unfolding g by (rule sorted_global_4a)
  have a: "i < j"
    if "i < length g" "j < length g" "p_id (g ! i) = ''4A''"
      "toLowerCase (p_id (g ! j)) \<noteq> ''4a''" for i j
  proof -
    from that(3) have "getScore ''4a'' ''4a'' (g ! i) = 0"
      by (simp add: score_exact lower_ids)
    moreover from that(4) have "1 \<le> getScore ''4a'' ''4a'' (g ! j)"
      by (rule score_not_exact)
    ultimately have "\<not> key_le ''4a'' ''4a'' (g ! j) (g ! i)"
      by (simp add: key_le_def)
    from earlier [OF s that(1,2) this] show ?thesis .
  qed
  have b: "i < j"
    if "i < length g" "j < length g" "startsWith (toLowerCase (p_name (g ! i))) ''4a''"
      "p_id (g ! j) = ''44A'' \<or> p_id (g ! j) = ''1504A''"
      "\<not> startsWith (toLowerCase (p_name (g ! j))) ''4a''" for i j
  proof -
    from that(3) have "getScore ''4a'' ''4a'' (g ! i) \<le> 2"
      by (rule score_name)
    moreover from that(4,5) have "getScore ''4a'' ''4a'' (g ! j) = 3"
      by (simp only: score_substring if_False)
    ultimately have "\<not> key_le ''4a'' ''4a'' (g ! j) (g ! i)"
      by (simp add: key_le_def)
    from earlier [OF s that(1,2) this] show ?thesis .
  qed
  have c: "i < j"
    if "i < length g" "j < length g" "p_id (g ! i) = ''44A''" "p_id (g ! j) = ''1504A''"
      "\<not> startsWith (toLowerCase (p_name (g ! j))) ''4a''" for i j
  proof -
    from that(3) have "p_id (g ! i) = ''44A'' \<or> p_id (g ! i) = ''1504A''" by simp
    then have "getScore ''4a'' ''4a'' (g ! i) \<le> 3"
      by (simp only: score_substring split: if_splits) simp
    moreover from that(4) have "p_id (g ! j) = ''44A'' \<or> p_id (g ! j) = ''1504A''" by simp
    with that(5) have "getScore ''4a'' ''4a'' (g ! j) = 3"
      by (simp only: score_substring if_False)
    moreover have "length (p_id (g ! i)) = 3" "length (p_id (g ! j)) = 5"
      using that(3,4) by simp_all
    ultimately have "\<not> key_le ''4a'' ''4a'' (g ! j) (g ! i)"
      by (simp add: key_le_def)
    from earlier [OF s that(1,2) this] show ?thesis .
  qed
  have d: "p \<in> set g"
    if "p \<in> set cat" "p_id p = ''4A'' \<or> p_id p = ''44A'' \<or> p_id p = ''1504A''"
      "case p_rating p of None \<Rightarrow> True | Some r \<Rightarrow> 0 \<le> r \<and> r \<le> 10000"
      "length (filter (isMatch ''4a'' ''4a'' (Some 0) (Some 10000)) cat) \<le> 50" for p
  proof -
    let ?m = "filter (isMatch ''4a'' ''4a'' (Some 0) (Some 10000)) cat"
    from that(1) match_ids [OF that(2,3)] have "p \<in> set ?m" by simp
    then have "p \<in> set (sortProblems lc ''4a'' ''4a'' ?m)"
      by (simp add: sortProblems_def set_array_sort)
    moreover from that(4) have "length (sortProblems lc ''4a'' ''4a'' ?m) \<le> 50"
      by (simp add: sortProblems_def length_array_sort)
    ultimately show ?thesis
      unfolding g global_4a by simp
  qed
  from a b c d show ?thesis by blast
qed

theorem C2_ranking_4a_witness:
  "p_id (res_global (searchResults compare_codes ''4a'' '''' '''' [] ex_catalog) ! 0) = ''4A'' \<and>
   startsWith (toLowerCase
     (p_name (res_global (searchResults compare_codes ''4a'' '''' '''' [] ex_catalog) ! 1)))
     ''4a'' \<and>
   p_id (res_global (searchResults compare_codes ''4a'' '''' '''' [] ex_catalog) ! 2) = ''44A'' \<and>
   p_id (res_global (searchResults compare_codes ''4a'' '''' '''' [] ex_catalog) ! 3)
     = ''1504A'' \<and>
   (0::nat) < 1 \<and> (1::nat) < 2 \<and> (2::nat) < 3 \<and>
   ex_prob ''1504A'' ''Deja Vu'' (Some 800)
     \<in> set (res_global (searchResults compare_codes ''4a'' '''' '''' [] ex_catalog))"
proof -
  let ?g = "res_global (searchResults compare_codes ''4a'' '''' '''' [] ex_catalog)"
  have pos: "p_id (?g ! 0) = ''4A''" "startsWith (toLowerCase (p_name (?g ! 1))) ''4a''"
    "p_id (?g ! 2) = ''44A''" "p_id (?g ! 3) = ''1504A''"
    by code_simp+
  have hyp: "ex_prob ''1504A'' ''Deja Vu'' (Some 800) \<in> set ex_catalog"
    "p_id (ex_prob ''1504A'' ''Deja Vu'' (Some 800)) = ''1504A''"
    "case p_rating (ex_prob ''1504A'' ''Deja Vu'' (Some 800)) of
       None \<Rightarrow> True | Some r \<Rightarrow> 0 \<le> r \<and> r \<le> 10000"
    "length (filter (isMatch ''4a'' ''4a'' (Some 0) (Some 10000)) ex_catalog) \<le> 50"
    by code_simp+
  have "ex_prob ''1504A'' ''Deja Vu'' (Some 800) \<in> set ?g"
    using C2_ranking_4a [of ?g compare_codes "[]" ex_catalog] hyp by blast
  with pos show ?thesis by simp
qed

end
